theory Spec2Isabelle
  imports Complex_Main "HOL-Library.Stream"
begin

section \<open>Python values shared by the scripts\<close>

text \<open>
  The exceptions the modelled code can raise. Every function of the scripts that may raise
  returns \<open>py_error + 'a\<close>, with \<open>Inl\<close> for the exception.
\<close>

datatype py_error = ValueError | IndexError | OverflowError | KeyError

subsection \<open>Decimal text\<close>

definition digit_char :: "nat \<Rightarrow> char" where
  "digit_char n = char_of (48 + n)"

definition is_digit :: "char \<Rightarrow> bool" where
  "is_digit c = (48 \<le> (of_char c :: nat) \<and> (of_char c :: nat) \<le> 57)"

definition digit_val :: "char \<Rightarrow> nat" where
  "digit_val c = of_char c - 48"

text \<open>\<open>str(n)\<close> for a non-negative integer.\<close>

fun str_nat :: "nat \<Rightarrow> string" where
  "str_nat n = (if n < 10 then [digit_char n] else str_nat (n div 10) @ [digit_char (n mod 10)])"

declare str_nat.simps [simp del]

text \<open>Zero padding on the left to a width, as the \<open>%m\<close>, \<open>%d\<close> and \<open>%Y\<close> fields do.\<close>

definition zfill :: "nat \<Rightarrow> string \<Rightarrow> string" where
  "zfill w s = replicate (w - length s) (CHR ''0'') @ s"

text \<open>\<open>int(s)\<close> on a string of decimal digits; anything else is a \<open>ValueError\<close>.\<close>

definition py_int :: "string \<Rightarrow> py_error + nat" where
  "py_int s =
     (if s = [] \<or> \<not> list_all is_digit s then Inl ValueError
      else Inr (foldl (\<lambda>a c. 10 * a + digit_val c) 0 s))"

subsection \<open>Substrings\<close>

text \<open>
  \<open>sub in s\<close>, and \<open>str.contains\<close> and the SQL reading of a column definition with a
  pattern that is a plain word.
\<close>

fun str_contains :: "string \<Rightarrow> string \<Rightarrow> bool" where
  "str_contains sub [] = (sub = [])"
| "str_contains sub (c # cs) = (take (length sub) (c # cs) = sub \<or> str_contains sub cs)"

section \<open>The date dimension of the generator (gd.py)\<close>

text \<open>
  A \<open>datetime.date\<close>: year, month and day. The class keeps the invariant \<open>valid_date\<close>.
\<close>

record date =
  d_year :: nat
  d_month :: nat
  d_day :: nat

definition is_leap :: "nat \<Rightarrow> bool" where
  "is_leap y = (y mod 4 = 0 \<and> (y mod 100 \<noteq> 0 \<or> y mod 400 = 0))"

definition days_in_month :: "nat \<Rightarrow> nat \<Rightarrow> nat" where
  "days_in_month y m =
     (if m = 2 then (if is_leap y then 29 else 28)
      else if m = 4 \<or> m = 6 \<or> m = 9 \<or> m = 11 then 30 else 31)"

definition valid_date :: "date \<Rightarrow> bool" where
  "valid_date d =
     (1 \<le> d_year d \<and> d_year d \<le> 9999 \<and> 1 \<le> d_month d \<and> d_month d \<le> 12 \<and>
      1 \<le> d_day d \<and> d_day d \<le> days_in_month (d_year d) (d_month d))"

text \<open>\<open>d <= end\<close>: dates compare as the triples (year, month, day).\<close>

definition date_le :: "date \<Rightarrow> date \<Rightarrow> bool" where
  "date_le a b =
     (d_year a < d_year b \<or>
      (d_year a = d_year b \<and>
        (d_month a < d_month b \<or> (d_month a = d_month b \<and> d_day a \<le> d_day b))))"

text \<open>\<open>d + datetime.timedelta(days=1)\<close>; past 9999-12-31 it raises \<open>OverflowError\<close>.\<close>

definition next_day :: "date \<Rightarrow> py_error + date" where
  "next_day d =
     (if d_day d < days_in_month (d_year d) (d_month d) then Inr (d\<lparr>d_day := d_day d + 1\<rparr>)
      else if d_month d < 12 then Inr (d\<lparr>d_month := d_month d + 1, d_day := 1\<rparr>)
      else if d_year d < 9999 then Inr \<lparr>d_year = d_year d + 1, d_month = 1, d_day = 1\<rparr>
      else Inl OverflowError)"

text \<open>\<open>d.strftime("%Y%m%d")\<close> and the key \<open>int(d.strftime("%Y%m%d"))\<close>.\<close>

definition strftime_Ymd :: "date \<Rightarrow> string" where
  "strftime_Ymd d =
     zfill 4 (str_nat (d_year d)) @ zfill 2 (str_nat (d_month d)) @ zfill 2 (str_nat (d_day d))"

definition date_key :: "date \<Rightarrow> py_error + nat" where
  "date_key d = py_int (strftime_Ymd d)"

text \<open>
  One row of \<open>dim_date\<close>. The columns \<open>week\<close>, \<open>weekday\<close> and \<open>is_weekend\<close> come from
  the calendar library (\<open>isocalendar\<close>, \<open>weekday\<close>) and are not part of the model.
\<close>

record date_row =
  dr_date_key :: nat
  dr_date :: date
  dr_year :: nat
  dr_quarter :: nat
  dr_month :: nat
  dr_day :: nat
  dr_semester :: string

definition semester_name :: "nat \<Rightarrow> string" where
  "semester_name m =
     (if m \<in> {1, 2, 3, 4} then ''Spring'' else if m \<in> {5, 6, 7, 8} then ''Summer'' else ''Fall'')"

definition make_date_row :: "nat \<Rightarrow> date \<Rightarrow> date_row" where
  "make_date_row k d =
     \<lparr>dr_date_key = k, dr_date = d, dr_year = d_year d,
      dr_quarter = (d_month d - 1) div 3 + 1, dr_month = d_month d, dr_day = d_day d,
      dr_semester = semester_name (d_month d) @ '' '' @ str_nat (d_year d)\<rparr>"

text \<open>
  The loop \<open>while d <= end: dates.append({...}); d = d + timedelta(days=1)\<close>, from
  \<open>d = start\<close>. An exception ends the script, so the result is the exception.
\<close>

function gen_dates :: "date \<Rightarrow> date \<Rightarrow> py_error + date_row list" where
  "gen_dates d e =
     (if date_le d e then
        (case date_key d of
           Inl err \<Rightarrow> Inl err
         | Inr k \<Rightarrow>
             (case next_day d of
                Inl err \<Rightarrow> Inl err
              | Inr d' \<Rightarrow>
                  (case gen_dates d' e of
                     Inl err \<Rightarrow> Inl err
                   | Inr rows \<Rightarrow> Inr (make_date_row k d # rows))))
      else Inr [])"
  by pat_completeness auto
termination
proof (relation "measures [\<lambda>(d, e). Suc (d_year e) - d_year d, \<lambda>(d, e). 12 - d_month d,
    \<lambda>(d, e). 31 - d_day d]")
  show "wf (measures [\<lambda>(d, e). Suc (d_year e) - d_year d, \<lambda>(d, e). 12 - d_month d,
    \<lambda>(d, e). 31 - d_day d])"
    by simp
next
  fix d e :: date and k d'
  assume le: "date_le d e" and nd: "next_day d = Inr d'"
  have dim: "days_in_month (d_year d) (d_month d) \<le> 31"
    by (simp add: days_in_month_def)
  from le have y: "d_year d \<le> d_year e"
    by (auto simp: date_le_def)
  from nd dim y show "((d', e), (d, e)) \<in> measures [\<lambda>(d, e). Suc (d_year e) - d_year d,
    \<lambda>(d, e). 12 - d_month d, \<lambda>(d, e). 31 - d_day d]"
    by (auto simp: next_day_def split: if_splits)
qed

declare gen_dates.simps [simp del]

text \<open>
  The decoder of the round trip: the year, month and day read off the decimal digits of a
  key. The scripts never decode a key; this is the inverse whose existence the
  round-trip property asserts.
\<close>

definition decode_date_key :: "nat \<Rightarrow> date" where
  "decode_date_key k = \<lparr>d_year = k div 10000, d_month = k div 100 mod 100, d_day = k mod 100\<rparr>"

section \<open>Random numbers and floats of the ETL script (Ai\_analytics.py)\<close>

text \<open>
  The random generators are modelled by a tape of raw draws that each call reads and
  advances. A call reads one element \<open>u\<close>: \<open>random.random()\<close> returns its
  fractional part (a number in \<open>[0, 1)\<close>); \<open>uniform\<close>, \<open>randint\<close>,
  \<open>choice\<close> and the sampling of rows are computed from that fraction; for
  \<open>random.gauss(mu, sigma)\<close> the element is the standard normal deviate. Every value a
  generator can return is its reading of some tape, so a statement for all tapes is a
  statement for all random draws. Probabilities are not part of the model.
\<close>

type_synonym rng = "real stream"

definition random_random :: "rng \<Rightarrow> real \<times> rng" where
  "random_random g = (frac (shd g), stl g)"

definition random_uniform :: "real \<Rightarrow> real \<Rightarrow> rng \<Rightarrow> real \<times> rng" where
  "random_uniform a b g = (a + (b - a) * frac (shd g), stl g)"

definition random_gauss :: "real \<Rightarrow> real \<Rightarrow> rng \<Rightarrow> real \<times> rng" where
  "random_gauss mu sigma g = (mu + sigma * shd g, stl g)"

text \<open>An index below \<open>n\<close>, for \<open>0 < n\<close>.\<close>

definition rand_index :: "nat \<Rightarrow> real \<Rightarrow> nat" where
  "rand_index n u = nat \<lfloor>frac u * real n\<rfloor>"

text \<open>\<open>random.randint(a, b)\<close>: an empty range raises \<open>ValueError\<close>.\<close>

definition random_randint :: "int \<Rightarrow> int \<Rightarrow> rng \<Rightarrow> py_error + (int \<times> rng)" where
  "random_randint a b g =
     (if b < a then Inl ValueError
      else Inr (a + int (rand_index (nat (b - a + 1)) (shd g)), stl g))"

text \<open>\<open>random.choice(xs)\<close>: an empty sequence raises \<open>IndexError\<close>.\<close>

definition random_choice :: "'a list \<Rightarrow> rng \<Rightarrow> py_error + ('a \<times> rng)" where
  "random_choice xs g =
     (if xs = [] then Inl IndexError
      else Inr (xs ! rand_index (length xs) (shd g), stl g))"

text \<open>
  \<open>Series.apply(f)\<close> and \<open>DataFrame.apply(f, axis=1)\<close> with an \<open>f\<close> that draws random
  numbers: the rows are visited in order, each call continues on the tape the previous one
  left, and the first exception ends the run.
\<close>

fun apply_rng :: "('a \<Rightarrow> rng \<Rightarrow> py_error + ('b \<times> rng)) \<Rightarrow> 'a list \<Rightarrow> rng \<Rightarrow> py_error + ('b list \<times> rng)" where
  "apply_rng f [] g = Inr ([], g)"
| "apply_rng f (x # xs) g =
     (case f x g of
        Inl err \<Rightarrow> Inl err
      | Inr (y, g1) \<Rightarrow>
          (case apply_rng f xs g1 of
             Inl err \<Rightarrow> Inl err
           | Inr (ys, g2) \<Rightarrow> Inr (y # ys, g2)))"

text \<open>
  A Python float is a real number or NaN. The model computes on the reals: rounding
  errors of the 64-bit format are not part of it. Comparisons with NaN are false.
\<close>

datatype pyfloat = Finite real | NaN

fun float_lt :: "pyfloat \<Rightarrow> real \<Rightarrow> bool" where
  "float_lt (Finite x) b = (x < b)"
| "float_lt NaN b = False"

fun float_gt :: "pyfloat \<Rightarrow> real \<Rightarrow> bool" where
  "float_gt (Finite x) b = (b < x)"
| "float_gt NaN b = False"

text \<open>\<open>round(x, nd)\<close>: to the nearest multiple of \<open>10^-nd\<close>, ties to the even one.\<close>

definition round_half_even :: "real \<Rightarrow> int" where
  "round_half_even x =
     (let f = \<lfloor>x\<rfloor>; r = x - of_int f
      in if r < 1 / 2 then f else if 1 / 2 < r then f + 1 else if even f then f else f + 1)"

definition py_round :: "nat \<Rightarrow> real \<Rightarrow> real" where
  "py_round nd x = of_int (round_half_even (x * 10 ^ nd)) / 10 ^ nd"

fun round_float :: "nat \<Rightarrow> pyfloat \<Rightarrow> pyfloat" where
  "round_float nd (Finite x) = Finite (py_round nd x)"
| "round_float nd NaN = NaN"

text \<open>\<open>astype(int)\<close> and \<open>int(x)\<close> on a float: truncation towards zero.\<close>

definition astype_int :: "real \<Rightarrow> int" where
  "astype_int x = (if 0 \<le> x then \<lfloor>x\<rfloor> else \<lceil>x\<rceil>)"

text \<open>
  \<open>drop_duplicates(subset=[key])\<close> and \<open>unique()\<close>: the first row of each key stays,
  in the order of the input.
\<close>

fun drop_dups_seen :: "('a \<Rightarrow> 'k) \<Rightarrow> 'k list \<Rightarrow> 'a list \<Rightarrow> 'a list" where
  "drop_dups_seen key seen [] = []"
| "drop_dups_seen key seen (x # xs) =
     (if key x \<in> set seen then drop_dups_seen key seen xs
      else x # drop_dups_seen key (key x # seen) xs)"

definition drop_duplicates :: "('a \<Rightarrow> 'k) \<Rightarrow> 'a list \<Rightarrow> 'a list" where
  "drop_duplicates key xs = drop_dups_seen key [] xs"

definition unique :: "'a list \<Rightarrow> 'a list" where
  "unique xs = drop_duplicates (\<lambda>x. x) xs"

section \<open>The Dimension Transformer (transform\_dimensions)\<close>

text \<open>
  The frames are lists of typed rows, in the order of the file. A timestamp is a number of
  nanoseconds since the epoch; a date column read with
  \<open>pd.to_datetime(..., errors='coerce')\<close> holds \<open>Some\<close> timestamp or \<open>None\<close> (NaT)
  where the text did not parse, and the raw rows below carry that reading. The name, city,
  country and e-mail columns, which the script only trims and re-cases, and the course,
  account, vendor and date frames are not part of the model.
\<close>

definition ns_per_day :: int where
  "ns_per_day = 86400000000000"

text \<open>\<open>(today - t).dt.days\<close>: whole days of a time difference, rounded down.\<close>

definition timedelta_days :: "int \<Rightarrow> int \<Rightarrow> int" where
  "timedelta_days today t = (today - t) div ns_per_day"

subsection \<open>Departments\<close>

record department =
  dp_department_id :: int
  dp_department_name :: string
  dp_manager_id :: "int option"

definition is_space :: "char \<Rightarrow> bool" where
  "is_space c = (c \<in> set [CHR '' '', CHR 0x09, CHR 0x0A, CHR 0x0B, CHR 0x0C, CHR 0x0D])"

definition str_strip :: "string \<Rightarrow> string" where
  "str_strip s = rev (dropWhile is_space (rev (dropWhile is_space s)))"

text \<open>
  \<open>manager_id\<close>: \<open>x if x in valid_manager_ids else 0\<close>; a missing value is in no set
  of ids.
\<close>

definition repair_manager :: "int set \<Rightarrow> int option \<Rightarrow> int option" where
  "repair_manager valid_manager_ids x =
     (case x of Some m \<Rightarrow> if m \<in> valid_manager_ids then Some m else Some 0 | None \<Rightarrow> Some 0)"

definition transform_departments :: "int list \<Rightarrow> department list \<Rightarrow> department list" where
  "transform_departments employee_ids df_departments =
     (let valid_manager_ids = set employee_ids \<union> {0}
      in map (\<lambda>d. d\<lparr>dp_manager_id := repair_manager valid_manager_ids (dp_manager_id d),
                     dp_department_name := str_strip (dp_department_name d)\<rparr>) df_departments)"

subsection \<open>Students\<close>

text \<open>
  The admission year of a raw row is the number \<open>read_csv\<close> reads from the cell, whole
  or not, or NaN for an empty cell; the birth date is a timestamp or NaT. A cleaned row
  holds the number the repair keeps or draws.
\<close>

record raw_student =
  rs_student_id :: int
  rs_birth_date :: "int option"
  rs_admission_year :: pyfloat
  rs_program :: string

record student =
  st_student_id :: int
  st_birth_date :: "int option"
  st_admission_year :: real
  st_program :: string
  st_age :: int

text \<open>\<open>random.randint(2019, current_year)\<close>, as the number stored in the column.\<close>

definition random_admission_year :: "int \<Rightarrow> rng \<Rightarrow> py_error + (real \<times> rng)" where
  "random_admission_year current_year g =
     (case random_randint 2019 current_year g of
        Inl err \<Rightarrow> Inl err
      | Inr (y, g1) \<Rightarrow> Inr (real_of_int y, g1))"

text \<open>
  \<open>x if pd.notna(x) and 2000 <= int(x) <= current_year else
  random.randint(2019, current_year)\<close>: the test is on \<open>int(x)\<close>, the value kept is
  \<open>x\<close> itself.
\<close>

definition repair_admission_year :: "int \<Rightarrow> pyfloat \<Rightarrow> rng \<Rightarrow> py_error + (real \<times> rng)" where
  "repair_admission_year current_year x g =
     (case x of
        Finite y \<Rightarrow>
          if 2000 \<le> astype_int y \<and> astype_int y \<le> current_year then Inr (y, g)
          else random_admission_year current_year g
      | NaN \<Rightarrow> random_admission_year current_year g)"

text \<open>
  \<open>((today - birth_date).dt.days / 365.25).fillna(0).astype(int)\<close>: NaT gives 0.
\<close>

definition student_age :: "int \<Rightarrow> int option \<Rightarrow> int" where
  "student_age today birth =
     (case birth of
        None \<Rightarrow> 0
      | Some t \<Rightarrow> astype_int (real_of_int (timedelta_days today t) / 365.25))"

definition program_mapping :: "(string \<times> string) list" where
  "program_mapping =
     [(''BS Software Eng'', ''BS Software Engineering''),
      (''BS Electrical'', ''BS Electrical Engineering'')]"

definition replace_program :: "string \<Rightarrow> string" where
  "replace_program p = (case map_of program_mapping p of Some q \<Rightarrow> q | None \<Rightarrow> p)"

definition make_student :: "int \<Rightarrow> raw_student \<Rightarrow> real \<Rightarrow> student" where
  "make_student today r y =
     \<lparr>st_student_id = rs_student_id r, st_birth_date = rs_birth_date r, st_admission_year = y,
      st_program = rs_program r, st_age = student_age today (rs_birth_date r)\<rparr>"

text \<open>
  The student steps of \<open>transform_dimensions\<close>, in the order of the script: the admission
  years of all rows, the ages, the filter \<open>(age >= 16) & (age <= 60)\<close>, the program
  names, and \<open>drop_duplicates(subset=['student_id'])\<close>. \<open>current_year\<close> is
  \<open>datetime.datetime.now().year\<close> and \<open>today\<close> is \<open>pd.to_datetime('today')\<close>.
\<close>

definition transform_students :: "int \<Rightarrow> int \<Rightarrow> raw_student list \<Rightarrow> rng \<Rightarrow> py_error + (student list \<times> rng)" where
  "transform_students current_year today df_students g =
     (case apply_rng (repair_admission_year current_year) (map rs_admission_year df_students) g of
        Inl err \<Rightarrow> Inl err
      | Inr (years, g1) \<Rightarrow>
          (let with_age = map (\<lambda>(r, y). make_student today r y) (zip df_students years);
               in_range = filter (\<lambda>s. 16 \<le> st_age s \<and> st_age s \<le> 60) with_age;
               renamed = map (\<lambda>s. s\<lparr>st_program := replace_program (st_program s)\<rparr>) in_range
           in Inr (drop_duplicates st_student_id renamed, g1)))"

subsection \<open>Employees\<close>

text \<open>
  A salary cell as \<open>float(...)\<close> sees it: a number (NaN for an empty cell), or a text
  that \<open>float\<close> rejects. A text that \<open>float\<close> accepts is the number it denotes.
\<close>

datatype salary_cell = Number pyfloat | Unparsable string

record raw_employee =
  re_employee_id :: int
  re_job_title :: string
  re_salary :: salary_cell
  re_department_id :: int
  re_manager_id :: "int option"
  re_hire_date :: "int option"

record employee =
  em_employee_id :: int
  em_job_title :: string
  em_salary :: pyfloat
  em_department_id :: int
  em_manager_id :: int
  em_hire_date :: "int option"
  em_tenure_years :: real

definition py_float :: "salary_cell \<Rightarrow> py_error + pyfloat" where
  "py_float c = (case c of Number v \<Rightarrow> Inr v | Unparsable s \<Rightarrow> Inl ValueError)"

definition salary_ranges :: "(string \<times> real \<times> real) list" where
  "salary_ranges =
     [(''Professor'', (70000, 120000)),
      (''Associate Professor'', (60000, 90000)),
      (''Assistant Professor'', (50000, 75000)),
      (''Lecturer'', (40000, 60000)),
      (''HR Manager'', (55000, 80000)),
      (''Finance Officer'', (45000, 70000)),
      (''Department Head'', (80000, 130000)),
      (''Administrative Assistant'', (35000, 50000)),
      (''IT Support'', (40000, 65000)),
      (''Research Assistant'', (30000, 45000))]"

definition default_range :: "real \<times> real" where
  "default_range = (30000, 120000)"

text \<open>\<open>salary_ranges.get(title, default_range)\<close>\<close>

definition salary_band :: "string \<Rightarrow> real \<times> real" where
  "salary_band title = (case map_of salary_ranges title of Some b \<Rightarrow> b | None \<Rightarrow> default_range)"

definition adjust_salary :: "raw_employee \<Rightarrow> rng \<Rightarrow> pyfloat \<times> rng" where
  "adjust_salary row g =
     (let (min_sal, max_sal) = salary_band (re_job_title row);
          (sal, g1) = (case py_float (re_salary row) of
                         Inr v \<Rightarrow> (v, g)
                       | Inl err \<Rightarrow>
                           (let (u, g') = random_uniform (fst default_range) (snd default_range) g
                            in (Finite u, g')))
      in if float_lt sal min_sal \<or> float_gt sal max_sal then
           (let (u, g2) = random_uniform min_sal max_sal g1 in (Finite (py_round 2 u), g2))
         else (round_float 2 sal, g1))"

text \<open>\<open>x if x in valid_dept_ids else random.choice(list(valid_dept_ids))\<close>\<close>

definition repair_department :: "int list \<Rightarrow> int \<Rightarrow> rng \<Rightarrow> py_error + (int \<times> rng)" where
  "repair_department valid_dept_ids x g =
     (if x \<in> set valid_dept_ids then Inr (x, g) else random_choice (unique valid_dept_ids) g)"

text \<open>
  \<open>((today - hire_date).dt.days / 365.25).round(1).fillna(0)\<close>
\<close>

definition tenure_years :: "int \<Rightarrow> int option \<Rightarrow> real" where
  "tenure_years today hire =
     (case hire of
        None \<Rightarrow> 0
      | Some t \<Rightarrow> py_round 1 (real_of_int (timedelta_days today t) / 365.25))"

definition make_employee :: "int \<Rightarrow> raw_employee \<Rightarrow> int \<Rightarrow> pyfloat \<Rightarrow> employee" where
  "make_employee today r dept sal =
     \<lparr>em_employee_id = re_employee_id r, em_job_title = re_job_title r, em_salary = sal,
      em_department_id = dept,
      em_manager_id = (case re_manager_id r of Some m \<Rightarrow> m | None \<Rightarrow> 0),
      em_hire_date = re_hire_date r, em_tenure_years = tenure_years today (re_hire_date r)\<rparr>"

text \<open>
  The employee steps of \<open>transform_dimensions\<close>: the department references of all rows
  (against the ids of the raw department frame), then the salaries of all rows, then
  \<open>drop_duplicates(subset=['employee_id'])\<close>.
\<close>

definition transform_employees :: "int \<Rightarrow> int list \<Rightarrow> raw_employee list \<Rightarrow> rng \<Rightarrow> py_error + (employee list \<times> rng)" where
  "transform_employees today valid_dept_ids df_employees g =
     (case apply_rng (repair_department valid_dept_ids) (map re_department_id df_employees) g of
        Inl err \<Rightarrow> Inl err
      | Inr (depts, g1) \<Rightarrow>
          (case apply_rng (\<lambda>row g. Inr (adjust_salary row g)) df_employees g1 of
             Inl err \<Rightarrow> Inl err
           | Inr (sals, g2) \<Rightarrow>
               Inr (drop_duplicates em_employee_id
                      (map (\<lambda>(r, d, s). make_employee today r d s)
                         (zip df_employees (zip depts sals))), g2)))"

text \<open>The frames \<open>transform_dimensions\<close> returns that the model follows.\<close>

record transformed =
  td_students :: "student list"
  td_employees :: "employee list"
  td_departments :: "department list"

definition transform_dimensions :: "int \<Rightarrow> int \<Rightarrow> raw_student list \<Rightarrow> raw_employee list \<Rightarrow> department list \<Rightarrow> rng \<Rightarrow> py_error + (transformed \<times> rng)" where
  "transform_dimensions current_year today df_students df_employees df_departments g =
     (let valid_dept_ids = map dp_department_id df_departments;
          departments = transform_departments (map re_employee_id df_employees) df_departments
      in case transform_students current_year today df_students g of
           Inl err \<Rightarrow> Inl err
         | Inr (students, g1) \<Rightarrow>
             (case transform_employees today valid_dept_ids df_employees g1 of
                Inl err \<Rightarrow> Inl err
              | Inr (employees, g2) \<Rightarrow>
                  Inr (\<lparr>td_students = students, td_employees = employees,
                        td_departments = departments\<rparr>, g2)))"

section \<open>Frames by column and ensure\_sql\_types\_before\_load\<close>

text \<open>
  \<open>ensure_sql_types_before_load\<close> works on any frame and selects columns by name, so
  here a frame is its list of named columns, and a cell is a value of any kind. Frames are
  objects: a store holds them, and a reference is an index into the store. Column names
  are distinct, as \<open>read_csv\<close> and \<open>read_sql\<close> make them.
\<close>

datatype cell =
  Null | IntCell int | FloatCell real | TextCell string | BoolCell bool
  | TimestampCell int | DateCell int

type_synonym frame = "(string \<times> cell list) list"

type_synonym store = "frame list"

definition endswith :: "string \<Rightarrow> string \<Rightarrow> bool" where
  "endswith s suffix =
     (length suffix \<le> length s \<and> drop (length s - length suffix) s = suffix)"

text \<open>\<open>col == 'date' or col.endswith('_date') or col.endswith('_at')\<close>\<close>

definition is_date_column :: "string \<Rightarrow> bool" where
  "is_date_column col = (col = ''date'' \<or> endswith col ''_date'' \<or> endswith col ''_at'')"

text \<open>
  \<open>.dt.date\<close> on one element of a datetime column: the calendar day of a timestamp (a
  day number, with no time of day and no zone), and the null for NaT.
\<close>

definition dt_date :: "int option \<Rightarrow> cell" where
  "dt_date t = (case t of None \<Rightarrow> Null | Some ns \<Rightarrow> DateCell (ns div ns_per_day))"

text \<open>\<open>df[col] = values\<close>: the column of that name is replaced, a new name is appended.\<close>

fun set_column :: "string \<Rightarrow> cell list \<Rightarrow> frame \<Rightarrow> frame" where
  "set_column c v [] = [(c, v)]"
| "set_column c v ((c', v') # df) =
     (if c' = c then (c, v) # df else (c', v') # set_column c v df)"

text \<open>
  The loop \<open>for col in df.columns\<close>. The parameter \<open>to_datetime\<close> is
  \<open>pd.to_datetime(column, errors='coerce')\<close>: for each element of the column a
  timestamp, or \<open>None\<close> (NaT) where the value does not parse. \<open>df[col]\<close> of a name
  that is no column raises \<open>KeyError\<close>.
\<close>

fun convert_columns :: "(cell list \<Rightarrow> int option list) \<Rightarrow> string list \<Rightarrow> frame \<Rightarrow> py_error + frame" where
  "convert_columns to_datetime [] df = Inr df"
| "convert_columns to_datetime (col # cols) df =
     (if is_date_column col then
        (case map_of df col of
           None \<Rightarrow> Inl KeyError
         | Some v \<Rightarrow>
             convert_columns to_datetime cols (set_column col (map dt_date (to_datetime v)) df))
      else convert_columns to_datetime cols df)"

text \<open>
  \<open>df = df.copy()\<close> allocates a new frame with the same columns; the loop assigns columns
  of the copy; the function returns the reference of the copy.
\<close>

definition ensure_sql_types_before_load :: "(cell list \<Rightarrow> int option list) \<Rightarrow> store \<Rightarrow> nat \<Rightarrow> py_error + (store \<times> nat)" where
  "ensure_sql_types_before_load to_datetime h r =
     (let copy = length h;
          h1 = h @ [h ! r]
      in case convert_columns to_datetime (map fst (h1 ! copy)) (h1 ! copy) of
           Inl err \<Rightarrow> Inl err
         | Inr df \<Rightarrow> Inr (h1[copy := df], copy))"

section \<open>The Schema Manager (create\_transformed\_tables)\<close>






text \<open>
  The server's rules for foreign keys, after the MySQL manual (FOREIGN KEY Constraints,
  and the variable \<open>foreign_key_checks\<close>). A foreign key is well formed when its
  column and the referenced column exist, have the same type, and the referenced column
  is indexed (here: a primary key or a unique column; indexes declared apart from the
  column are not part of the model). With the checks off the server still refuses a
  foreign key that is not well formed, and refuses to re-create a dropped table whose
  new definition does not conform to the foreign keys that stored tables hold into it.
\<close>

definition sql_type :: "string \<Rightarrow> string" where
  "sql_type definition_text = takeWhile (\<lambda>c. c \<noteq> CHR '' '') definition_text"

definition column_indexed :: "string \<Rightarrow> bool" where
  "column_indexed definition_text =
     (str_contains ''PRIMARY KEY'' definition_text \<or> str_contains ''UNIQUE'' definition_text)"














section \<open>The Loader (load\_transformed\_data)\<close>

text \<open>
  The Loader appends typed rows to the tables of the warehouse. \<open>to_sql(...,
  if_exists="append")\<close> is the append itself: the rejections of the database server
  (duplicate keys, foreign keys) are not part of the model, so what is proved below about
  the department references is the work of the script. The conversion of the date columns
  before the write (section on \<open>ensure_sql_types_before_load\<close>) leaves the department
  reference as it is and is not repeated on the typed rows. The date, account, vendor and
  course tables are not part of the model.
\<close>

record warehouse =
  wh_dim_department :: "department list"
  wh_dim_student :: "student list"
  wh_dim_employee :: "employee list"

text \<open>The line the Loader prints about invalid department references.\<close>

datatype message = InvalidDepartmentWarning "int set"

text \<open>
  The result is the warehouse after the writes, the warnings printed and the tape left.
  \<open>random.choice\<close> on an empty list of departments raises \<open>IndexError\<close>, which ends
  the run before any employee is written.
\<close>

definition load_transformed_data :: "transformed \<Rightarrow> warehouse \<Rightarrow> rng \<Rightarrow> py_error + (warehouse \<times> message list \<times> rng)" where
  "load_transformed_data transformed_data wh g =
     (let wh1 = wh\<lparr>wh_dim_department := wh_dim_department wh @ td_departments transformed_data\<rparr>;
          wh2 = wh1\<lparr>wh_dim_student := wh_dim_student wh1 @ td_students transformed_data\<rparr>;
          valid_dept_ids = map dp_department_id (td_departments transformed_data);
          employee_dept_ids = set (map em_department_id (td_employees transformed_data));
          invalid_dept_ids = employee_dept_ids - set valid_dept_ids
      in if invalid_dept_ids \<noteq> {} then
           (case apply_rng (repair_department valid_dept_ids)
                   (map em_department_id (td_employees transformed_data)) g of
              Inl err \<Rightarrow> Inl err
            | Inr (depts, g1) \<Rightarrow>
                Inr (wh2\<lparr>wh_dim_employee := wh_dim_employee wh2 @
                           map (\<lambda>(e, d). e\<lparr>em_department_id := d\<rparr>)
                             (zip (td_employees transformed_data) depts)\<rparr>,
                     [InvalidDepartmentWarning invalid_dept_ids], g1))
         else Inr (wh2\<lparr>wh_dim_employee := wh_dim_employee wh2 @ td_employees transformed_data\<rparr>,
                   [], g))"

section \<open>The Fact Synthesizer (generate\_business\_facts)\<close>

text \<open>
  The synthesizer reads the persisted tables back. Students and employees are the rows the
  Loader wrote; a course row carries the columns the synthesizer reads; the date rows are
  those of the date dimension. The finance facts, which no property below concerns, are
  not part of the model.
\<close>

record course =
  co_course_id :: int
  co_course_level :: string
  co_credit_hours :: int

record academic_fact =
  af_date_key :: nat
  af_student_id :: int
  af_course_id :: int
  af_employee_id :: int
  af_grade :: real
  af_attendance_percent :: real
  af_fee_paid :: real

record hr_fact =
  hf_employee_id :: int
  hf_department_id :: int
  hf_date_key :: nat
  hf_salary_amount :: pyfloat
  hf_bonus_amount :: pyfloat
  hf_overtime_hours :: real
  hf_leave_days_taken :: int
  hf_performance_rating :: real

text \<open>
  \<open>df.sample(1).iloc[0]\<close>, \<open>series.sample(n, replace=True)\<close> and \<open>df.sample(n)\<close>
  (without replacement). Sampling from an empty frame raises \<open>ValueError\<close>.
\<close>

definition sample_one :: "'a list \<Rightarrow> rng \<Rightarrow> py_error + ('a \<times> rng)" where
  "sample_one xs g =
     (if xs = [] then Inl ValueError else Inr (xs ! rand_index (length xs) (shd g), stl g))"

definition sample_with_replacement :: "nat \<Rightarrow> 'a list \<Rightarrow> rng \<Rightarrow> py_error + ('a list \<times> rng)" where
  "sample_with_replacement n xs g =
     (if xs = [] \<and> 0 < n then Inl ValueError
      else Inr (map (\<lambda>u. xs ! rand_index (length xs) u) (stake n g), sdrop n g))"

fun sample_without_replacement :: "nat \<Rightarrow> 'a list \<Rightarrow> rng \<Rightarrow> py_error + ('a list \<times> rng)" where
  "sample_without_replacement 0 xs g = Inr ([], g)"
| "sample_without_replacement (Suc n) xs g =
     (if xs = [] then Inl ValueError
      else (let i = rand_index (length xs) (shd g)
            in case sample_without_replacement n (take i xs @ drop (Suc i) xs) (stl g) of
                 Inl err \<Rightarrow> Inl err
               | Inr (ys, g1) \<Rightarrow> Inr (xs ! i # ys, g1)))"

subsection \<open>Academic facts\<close>

definition is_instructor :: "employee \<Rightarrow> bool" where
  "is_instructor e =
     (str_contains ''Professor'' (em_job_title e) \<or> str_contains ''Lecturer'' (em_job_title e))"

text \<open>
  The grade, the attendance and the fee of one record, as the record stores them: a normal
  draw around 70 moved by the course level and the student's age and clipped to
  [0, 100]; the grade plus a normal noise, clipped to [60, 100]; the fee with its
  discount.
\<close>

definition academic_measures :: "student \<Rightarrow> course \<Rightarrow> rng \<Rightarrow> (real \<times> real \<times> real) \<times> rng" where
  "academic_measures student course g =
     (let (draw, g1) = random_gauss 70 12 g;
          by_level = (if co_course_level course = ''Advanced'' then draw - 5
                      else if co_course_level course = ''Introductory'' then draw + 5
                      else draw);
          base_grade = (if 25 < st_age student then by_level + 3 else by_level);
          grade = max 0 (min 100 base_grade);
          (noise, g2) = random_gauss 0 8 g1;
          attendance = max 60 (min 100 (grade + noise));
          (u, g3) = random_random g2
      in ((py_round 1 grade, py_round 1 attendance,
           py_round 2 (real_of_int (co_credit_hours course) * 250 *
                         (if u < 0.2 then 0.8 else 1.0))), g3))"

text \<open>
  One pass of the loop \<open>for student_id in student_ids\<close>: the student's row, a course,
  an instructor and a date are picked, then the measures are drawn. \<open>....iloc[0]\<close> on
  no row raises \<open>IndexError\<close>.
\<close>

definition academic_record :: "student list \<Rightarrow> course list \<Rightarrow> employee list \<Rightarrow> date_row list \<Rightarrow> int \<Rightarrow> rng \<Rightarrow> py_error + (academic_fact \<times> rng)" where
  "academic_record df_students df_courses df_employees df_dates student_id g =
     (case find (\<lambda>s. st_student_id s = student_id) df_students of
        None \<Rightarrow> Inl IndexError
      | Some student \<Rightarrow>
     (case sample_one df_courses g of
        Inl err \<Rightarrow> Inl err
      | Inr (course, g1) \<Rightarrow>
     (let profs = filter is_instructor df_employees
      in case sample_one (if profs = [] then df_employees else profs) g1 of
        Inl err \<Rightarrow> Inl err
      | Inr (instructor, g2) \<Rightarrow>
     (case sample_one df_dates g2 of
        Inl err \<Rightarrow> Inl err
      | Inr (date, g3) \<Rightarrow>
     (let ((grade, attendance, fee), g4) = academic_measures student course g3
      in Inr (\<lparr>af_date_key = dr_date_key date, af_student_id = student_id,
               af_course_id = co_course_id course, af_employee_id = em_employee_id instructor,
               af_grade = grade, af_attendance_percent = attendance,
               af_fee_paid = fee\<rparr>, g4))))))"

text \<open>\<open>df_students['student_id'].sample(5000, replace=True)\<close>\<close>

definition sampled_student_ids :: "student list \<Rightarrow> rng \<Rightarrow> py_error + (int list \<times> rng)" where
  "sampled_student_ids df_students g =
     sample_with_replacement 5000 (map st_student_id df_students) g"

definition generate_academic_facts :: "student list \<Rightarrow> course list \<Rightarrow> employee list \<Rightarrow> date_row list \<Rightarrow> rng \<Rightarrow> py_error + (academic_fact list \<times> rng)" where
  "generate_academic_facts df_students df_courses df_employees df_dates g =
     (case sampled_student_ids df_students g of
        Inl err \<Rightarrow> Inl err
      | Inr (sampled, g1) \<Rightarrow>
          apply_rng (academic_record df_students df_courses df_employees df_dates)
            (unique sampled) g1)"

subsection \<open>HR facts\<close>

fun float_times :: "pyfloat \<Rightarrow> real \<Rightarrow> pyfloat" where
  "float_times (Finite x) y = Finite (x * y)"
| "float_times NaN y = NaN"

text \<open>One pass of the loop \<open>for _, date_row in selected_dates.iterrows()\<close>.\<close>

definition hr_record :: "employee \<Rightarrow> date_row \<Rightarrow> rng \<Rightarrow> py_error + (hr_fact \<times> rng)" where
  "hr_record employee date_row g =
     (let (draw, g1) = random_gauss 3.5 0.5 g;
          by_tenure = (if 5 < em_tenure_years employee then draw + 0.3 else draw);
          base_performance =
            (if str_contains ''Professor'' (em_job_title employee) then by_tenure + 0.2
             else by_tenure);
          performance = max 1.0 (min 5.0 base_performance);
          (overtime, g2) = random_uniform 0 10 g1
      in case random_randint 0 8 g2 of
           Inl err \<Rightarrow> Inl err
         | Inr (leave, g3) \<Rightarrow>
             Inr (\<lparr>hf_employee_id = em_employee_id employee,
                   hf_department_id = em_department_id employee,
                   hf_date_key = dr_date_key date_row,
                   hf_salary_amount = em_salary employee,
                   hf_bonus_amount = round_float 2 (float_times (em_salary employee) (performance / 20)),
                   hf_overtime_hours = py_round 1 overtime,
                   hf_leave_days_taken = leave,
                   hf_performance_rating = py_round 1 performance\<rparr>, g3))"

text \<open>
  One pass of the loop \<open>for employee_id in df_employees['employee_id'].unique()\<close>: up to
  eight of the quarterly dates, or up to four dates of any kind when there is no quarterly
  date.
\<close>

definition employee_records :: "employee list \<Rightarrow> date_row list \<Rightarrow> date_row list \<Rightarrow> int \<Rightarrow> rng \<Rightarrow> py_error + (hr_fact list \<times> rng)" where
  "employee_records df_employees df_dates quarterly_dates employee_id g =
     (case find (\<lambda>e. em_employee_id e = employee_id) df_employees of
        None \<Rightarrow> Inl IndexError
      | Some employee \<Rightarrow>
          (let sample_size = min 8 (length quarterly_dates)
           in case (if sample_size = 0
                    then sample_without_replacement (min 4 (length df_dates)) df_dates g
                    else sample_without_replacement sample_size quarterly_dates g) of
                Inl err \<Rightarrow> Inl err
              | Inr (selected_dates, g1) \<Rightarrow> apply_rng (hr_record employee) selected_dates g1))"

text \<open>
  \<open>cutoff\<close> is \<open>pd.to_datetime('today').normalize() - pd.DateOffset(years=2)\<close>, a
  calendar date.
\<close>

definition generate_hr_facts :: "date \<Rightarrow> employee list \<Rightarrow> date_row list \<Rightarrow> rng \<Rightarrow> py_error + (hr_fact list \<times> rng)" where
  "generate_hr_facts cutoff df_employees df_dates g =
     (let recent_dates = filter (\<lambda>d. date_le cutoff (dr_date d)) df_dates;
          quarterly_dates = filter (\<lambda>d. dr_month d \<in> {3, 6, 9, 12}) recent_dates
      in case apply_rng (employee_records df_employees df_dates quarterly_dates)
                (unique (map em_employee_id df_employees)) g of
           Inl err \<Rightarrow> Inl err
         | Inr (groups, g1) \<Rightarrow> Inr (concat groups, g1))"

text \<open>The academic facts, then the HR facts, on one tape.\<close>

definition generate_business_facts :: "date \<Rightarrow> student list \<Rightarrow> course list \<Rightarrow> employee list \<Rightarrow> date_row list \<Rightarrow> rng \<Rightarrow> py_error + (academic_fact list \<times> hr_fact list \<times> rng)" where
  "generate_business_facts cutoff df_students df_courses df_employees df_dates g =
     (case generate_academic_facts df_students df_courses df_employees df_dates g of
        Inl err \<Rightarrow> Inl err
      | Inr (academic_data, g1) \<Rightarrow>
          (case generate_hr_facts cutoff df_employees df_dates g1 of
             Inl err \<Rightarrow> Inl err
           | Inr (hr_data, g2) \<Rightarrow> Inr (academic_data, hr_data, g2)))"

section \<open>Properties of the random draws and of the list operations\<close>

lemma rand_index_less: "0 < n \<Longrightarrow> rand_index n u < n"
proof -
  assume n: "0 < n"
  have f: "0 \<le> frac u" "frac u < 1" by (simp_all add: frac_lt_1)
  then have "frac u * real n < real n" using n by simp
  then have "\<lfloor>frac u * real n\<rfloor> < int n" by (simp add: floor_less_iff)
  moreover have "0 \<le> \<lfloor>frac u * real n\<rfloor>" using f by simp
  ultimately show ?thesis unfolding rand_index_def by linarith
qed

lemma random_randint_range:
  assumes "random_randint a b g = Inr (v, g')"
  shows "a \<le> v \<and> v \<le> b"
proof -
  from assms have ab: "a \<le> b" and v: "v = a + int (rand_index (nat (b - a + 1)) (shd g))"
    by (auto simp: random_randint_def split: if_splits)
  from ab have "rand_index (nat (b - a + 1)) (shd g) < nat (b - a + 1)"
    by (intro rand_index_less) simp
  with v ab show ?thesis by simp
qed

lemma random_choice_member:
  "random_choice xs g = Inr (x, g') \<Longrightarrow> x \<in> set xs"
  by (auto simp: random_choice_def rand_index_less split: if_splits)

lemma random_uniform_range:
  assumes "a \<le> b" and "random_uniform a b g = (u, g')"
  shows "a \<le> u \<and> u \<le> b"
proof -
  have f: "0 \<le> frac (shd g)" "frac (shd g) \<le> 1" by (simp_all add: frac_lt_1 less_imp_le)
  from assms(2) have u: "u = a + (b - a) * frac (shd g)" by (simp add: random_uniform_def)
  have "0 \<le> (b - a) * frac (shd g)" using assms(1) f by simp
  moreover have "(b - a) * frac (shd g) \<le> (b - a) * 1"
    using assms(1) f by (intro mult_left_mono) simp_all
  ultimately show ?thesis using u by simp
qed

lemma apply_rng_list_all2:
  "apply_rng f xs g = Inr (ys, g') \<Longrightarrow> list_all2 (\<lambda>x y. \<exists>g1 g2. f x g1 = Inr (y, g2)) xs ys"
proof (induction xs arbitrary: ys g)
  case Nil
  then show ?case by simp
next
  case (Cons x xs)
  from Cons.prems obtain y g1 rest where
    fx: "f x g = Inr (y, g1)" and r: "apply_rng f xs g1 = Inr (rest, g')" and ys: "ys = y # rest"
    by (auto split: sum.splits prod.splits)
  from Cons.IH [OF r] fx ys show ?case by auto
qed

lemma apply_rng_length: "apply_rng f xs g = Inr (ys, g') \<Longrightarrow> length ys = length xs"
  by (drule apply_rng_list_all2) (simp add: list_all2_lengthD)

lemma apply_rng_total:
  "(\<And>x g. x \<in> set xs \<Longrightarrow> \<exists>y g1. f x g = Inr (y, g1)) \<Longrightarrow> \<exists>ys g'. apply_rng f xs g = Inr (ys, g')"
proof (induction xs arbitrary: g)
  case Nil
  then show ?case by simp
next
  case (Cons x xs)
  from Cons.prems [of x g] obtain y g1 where fx: "f x g = Inr (y, g1)" by auto
  from Cons.IH [of g1] Cons.prems obtain ys g2 where "apply_rng f xs g1 = Inr (ys, g2)"
    by (metis list.set_intros(2))
  with fx show ?case by simp
qed

lemma drop_dups_seen_subset: "set (drop_dups_seen key seen xs) \<subseteq> set xs"
  by (induction xs arbitrary: seen) auto

lemma drop_duplicates_subset: "set (drop_duplicates key xs) \<subseteq> set xs"
  by (simp add: drop_duplicates_def drop_dups_seen_subset)

lemma drop_dups_seen_map:
  "map h (drop_dups_seen (\<lambda>x. k (h x)) seen xs) = drop_dups_seen k seen (map h xs)"
  by (induction xs arbitrary: seen) auto

lemma drop_duplicates_map:
  "map h (drop_duplicates (\<lambda>x. k (h x)) xs) = drop_duplicates k (map h xs)"
  by (simp add: drop_duplicates_def drop_dups_seen_map)

lemma drop_dups_seen_keys:
  "distinct (map key (drop_dups_seen key seen xs)) \<and>
   set (map key (drop_dups_seen key seen xs)) = key ` set xs - set seen"
  by (induction xs arbitrary: seen) auto

lemma drop_duplicates_distinct: "distinct (map key (drop_duplicates key xs))"
  by (simp add: drop_duplicates_def drop_dups_seen_keys)

lemma drop_duplicates_keys: "set (map key (drop_duplicates key xs)) = key ` set xs"
  using drop_dups_seen_keys [of key "[]" xs] by (simp add: drop_duplicates_def)

lemma astype_int_days:
  "astype_int (real_of_int d / 365.25) = (if 0 \<le> d then (4 * d) div 1461 else - ((4 * (- d)) div 1461))"
proof -
  have e: "real_of_int d / 365.25 = real_of_int (4 * d) / real_of_int 1461"
    by simp
  show ?thesis
  proof (cases "0 \<le> d")
    case True
    then have "0 \<le> real_of_int d / 365.25" by simp
    then have "astype_int (real_of_int d / 365.25) = \<lfloor>real_of_int (4 * d) / real_of_int 1461\<rfloor>"
      unfolding astype_int_def e by simp
    also have "\<dots> = (4 * d) div 1461" by (rule floor_divide_of_int_eq)
    finally show ?thesis using True by simp
  next
    case False
    then have "\<not> 0 \<le> real_of_int d / 365.25" by simp
    then have "astype_int (real_of_int d / 365.25) = \<lceil>real_of_int (4 * d) / real_of_int 1461\<rceil>"
      unfolding astype_int_def e by simp
    also have "\<dots> = - \<lfloor>real_of_int (4 * (- d)) / real_of_int 1461\<rfloor>"
      by (simp add: ceiling_def)
    also have "\<dots> = - ((4 * (- d)) div 1461)"
      by (simp only: floor_divide_of_int_eq)
    finally show ?thesis using False by simp
  qed
qed

section \<open>Properties of the date keys\<close>

lemma digit_val_digit_char: "n < 10 \<Longrightarrow> digit_val (digit_char n) = n"
  by (simp add: digit_val_def digit_char_def)

lemma is_digit_digit_char: "n < 10 \<Longrightarrow> is_digit (digit_char n)"
  by (simp add: is_digit_def digit_char_def)

lemma str_nat_digits: "list_all is_digit (str_nat n)"
  by (induction n rule: str_nat.induct) (subst str_nat.simps, simp add: is_digit_digit_char)

lemma str_nat_nonempty: "str_nat n \<noteq> []"
  by (subst str_nat.simps) simp

lemma foldl_str_nat:
  "foldl (\<lambda>a c. 10 * a + digit_val c) a (str_nat n) = a * 10 ^ length (str_nat n) + n"
proof (induction n arbitrary: a rule: str_nat.induct)
  case (1 n)
  show ?case
  proof (cases "n < 10")
    case True
    then show ?thesis
      by (subst (1 2) str_nat.simps) (simp add: digit_val_digit_char)
  next
    case False
    have "foldl (\<lambda>a c. 10 * a + digit_val c) a (str_nat n) =
      10 * foldl (\<lambda>a c. 10 * a + digit_val c) a (str_nat (n div 10)) + n mod 10"
      using False by (subst str_nat.simps) (simp add: digit_val_digit_char)
    also have "\<dots> = 10 * (a * 10 ^ length (str_nat (n div 10)) + n div 10) + n mod 10"
      using 1 False by simp
    also have "\<dots> = a * 10 ^ length (str_nat n) + n"
      using False by (subst (2) str_nat.simps) (simp add: algebra_simps)
    finally show ?thesis .
  qed
qed

lemma foldl_zeros:
  "foldl (\<lambda>a c. 10 * a + digit_val c) a (replicate k (CHR ''0'')) = a * 10 ^ k"
  by (induction k arbitrary: a) (simp_all add: digit_val_def)

lemma foldl_zfill:
  "foldl (\<lambda>a c. 10 * a + digit_val c) a (zfill w (str_nat n)) =
     a * 10 ^ length (zfill w (str_nat n)) + n"
proof -
  have "foldl (\<lambda>a c. 10 * a + digit_val c) a (zfill w (str_nat n)) =
      (a * 10 ^ (w - length (str_nat n))) * 10 ^ length (str_nat n) + n"
    by (simp only: zfill_def foldl_append foldl_zeros foldl_str_nat)
  also have "\<dots> = a * 10 ^ length (zfill w (str_nat n)) + n"
    by (simp add: zfill_def power_add)
  finally show ?thesis .
qed

lemma zfill_digits: "list_all is_digit (zfill w (str_nat n))"
proof -
  have "is_digit (CHR ''0'')" by (simp add: is_digit_def)
  then have "list_all is_digit (replicate k (CHR ''0''))" for k
    by (induction k) simp_all
  then show ?thesis
    by (simp add: zfill_def str_nat_digits)
qed

lemma length_str_nat_2: "n < 100 \<Longrightarrow> length (str_nat n) \<le> 2"
proof (cases "n < 10")
  case True
  then show ?thesis by (subst str_nat.simps) simp
next
  case False
  assume "n < 100"
  then have "n div 10 < 10" by simp
  then have "length (str_nat (n div 10)) = 1" by (subst str_nat.simps) simp
  with False show ?thesis by (subst str_nat.simps) simp
qed

lemma length_zfill_2: "n < 100 \<Longrightarrow> length (zfill 2 (str_nat n)) = 2"
  using length_str_nat_2 [of n] by (simp add: zfill_def)

lemma date_key_value:
  assumes "d_month d < 100" "d_day d < 100"
  shows "date_key d = Inr (d_year d * 10000 + d_month d * 100 + d_day d)"
proof -
  have ne: "strftime_Ymd d \<noteq> []"
    by (simp add: strftime_Ymd_def zfill_def str_nat_nonempty)
  have dg: "list_all is_digit (strftime_Ymd d)"
    by (simp add: strftime_Ymd_def zfill_digits)
  have "foldl (\<lambda>a c. 10 * a + digit_val c) 0 (strftime_Ymd d) =
      d_year d * 10000 + d_month d * 100 + d_day d"
    using assms by (simp add: strftime_Ymd_def foldl_zfill length_zfill_2)
  with ne dg show ?thesis
    by (simp add: date_key_def py_int_def)
qed

lemma div_mod_digits: "r < b \<Longrightarrow> (q * b + r) div b = (q::nat) \<and> (q * b + r) mod b = r"
  by simp

lemma decode_date_key_value:
  assumes "m < 100" "dd < 100"
  shows "decode_date_key (y * 10000 + m * 100 + dd) = \<lparr>d_year = y, d_month = m, d_day = dd\<rparr>"
proof -
  define k where "k = y * 10000 + m * 100 + dd"
  have a: "k = (y * 100 + m) * 100 + dd" by (simp add: k_def)
  have d1: "k div 100 = y * 100 + m" and d2: "k mod 100 = dd"
    using div_mod_digits [OF assms(2), of "y * 100 + m"] by (simp_all only: a)
  have d3: "k div 100 div 100 = y" and d4: "k div 100 mod 100 = m"
    using div_mod_digits [OF assms(1), of y] by (simp_all only: d1)
  have d5: "k div 10000 = y"
    using d3 by (simp add: div_mult2_eq)
  show ?thesis
    unfolding decode_date_key_def k_def [symmetric] by (simp only: d2 d4 d5)
qed

lemma next_day_small:
  "next_day d = Inr d' \<Longrightarrow> d_month d \<le> 12 \<Longrightarrow> d_day d \<le> 31 \<Longrightarrow> d_month d' \<le> 12 \<and> d_day d' \<le> 31"
  unfolding next_day_def days_in_month_def
  by (auto split: if_splits)

lemma days_in_month_bounds: "28 \<le> days_in_month y m \<and> days_in_month y m \<le> 31"
  by (simp add: days_in_month_def)

lemma next_day_valid:
  assumes nd: "next_day d = Inr d'" and v: "valid_date d"
  shows "valid_date d'"
proof -
  note b = days_in_month_bounds
  consider (day) "d_day d < days_in_month (d_year d) (d_month d)"
    | (month) "\<not> d_day d < days_in_month (d_year d) (d_month d)" "d_month d < 12"
    | (year) "\<not> d_day d < days_in_month (d_year d) (d_month d)" "\<not> d_month d < 12" "d_year d < 9999"
    | (over) "\<not> d_day d < days_in_month (d_year d) (d_month d)" "\<not> d_month d < 12" "\<not> d_year d < 9999"
    by blast
  then show ?thesis
  proof cases
    case day
    with nd have "d' = d\<lparr>d_day := d_day d + 1\<rparr>" by (simp add: next_day_def)
    with v day show ?thesis by (simp add: valid_date_def)
  next
    case month
    with nd have "d' = d\<lparr>d_month := d_month d + 1, d_day := 1\<rparr>" by (simp add: next_day_def)
    with v month b [of "d_year d" "d_month d + 1"] show ?thesis by (simp add: valid_date_def)
  next
    case year
    with nd have "d' = \<lparr>d_year = d_year d + 1, d_month = 1, d_day = 1\<rparr>" by (simp add: next_day_def)
    with v year b [of "d_year d + 1" 1] show ?thesis by (simp add: valid_date_def)
  next
    case over
    with nd show ?thesis by (simp add: next_day_def)
  qed
qed

lemma valid_date_small: "valid_date d \<Longrightarrow> d_month d < 100 \<and> d_day d < 100"
  using days_in_month_bounds [of "d_year d" "d_month d"] by (simp add: valid_date_def)

lemma gen_dates_rows:
  "gen_dates d e = Inr rows \<Longrightarrow> valid_date d \<Longrightarrow> r \<in> set rows \<Longrightarrow>
     valid_date (dr_date r) \<and> date_key (dr_date r) = Inr (dr_date_key r)"
proof (induction d e arbitrary: rows rule: gen_dates.induct)
  case (1 d e)
  show ?case
  proof (cases "date_le d e")
    case False
    with "1.prems" show ?thesis by (simp add: gen_dates.simps)
  next
    case True
    from "1.prems"(1) True obtain k d' rest where
      k: "date_key d = Inr k" and nd: "next_day d = Inr d'" and
      rest: "gen_dates d' e = Inr rest" and rows: "rows = make_date_row k d # rest"
      by (subst (asm) gen_dates.simps) (auto split: sum.splits)
    show ?thesis
    proof (cases "r = make_date_row k d")
      case True
      with k "1.prems"(2) show ?thesis by (simp add: make_date_row_def)
    next
      case False
      with rows "1.prems"(3) have "r \<in> set rest" by simp
      with "1.IH" [OF True k nd rest next_day_valid [OF nd "1.prems"(2)]] show ?thesis .
    qed
  qed
qed

text \<open>The loop returns its rows unless it steps past the last day of the year 9999.\<close>

lemma gen_dates_total:
  "valid_date d \<Longrightarrow> d_year e < 9999 \<Longrightarrow> \<exists>rows. gen_dates d e = Inr rows"
proof (induction d e rule: gen_dates.induct)
  case (1 d e)
  show ?case
  proof (cases "date_le d e")
    case False
    then show ?thesis by (simp add: gen_dates.simps)
  next
    case True
    from valid_date_small [OF "1.prems"(1)] have
      k: "date_key d = Inr (d_year d * 10000 + d_month d * 100 + d_day d)"
      by (intro date_key_value) simp_all
    from True have "d_year d \<le> d_year e" by (auto simp: date_le_def)
    with "1.prems"(2) have "d_year d < 9999" by simp
    then have "\<exists>d'. next_day d = Inr d'" by (simp add: next_day_def)
    then obtain d' where nd: "next_day d = Inr d'" by blast
    from "1.IH" [OF True k nd next_day_valid [OF nd "1.prems"(1)] "1.prems"(2)]
    obtain rows where "gen_dates d' e = Inr rows" by blast
    with True k nd show ?thesis
      by (subst gen_dates.simps) simp
  qed
qed

lemma gen_dates_example:
  "gen_dates \<lparr>d_year = 2024, d_month = 2, d_day = 28\<rparr> \<lparr>d_year = 2024, d_month = 3, d_day = 1\<rparr> =
     Inr [make_date_row 20240228 \<lparr>d_year = 2024, d_month = 2, d_day = 28\<rparr>,
          make_date_row 20240229 \<lparr>d_year = 2024, d_month = 2, d_day = 29\<rparr>,
          make_date_row 20240301 \<lparr>d_year = 2024, d_month = 3, d_day = 1\<rparr>]"
  by (simp add: gen_dates.simps date_le_def date_key_value next_day_def days_in_month_def is_leap_def)

text \<open>
  C7. The date key of every date the generator's loop produces decodes to that date again,
  so the encoding is injective on the generated range: two generated rows with the same
  key have the same date. (The range starts at a \<open>datetime.date\<close>, which is valid.)
\<close>

theorem date_key_roundtrip:
  assumes "valid_date start" and "gen_dates start e = Inr rows"
  shows "(\<forall>r\<in>set rows. date_key (dr_date r) = Inr (dr_date_key r) \<and>
            decode_date_key (dr_date_key r) = dr_date r) \<and>
         (\<forall>r1\<in>set rows. \<forall>r2\<in>set rows.
            dr_date_key r1 = dr_date_key r2 \<longrightarrow> dr_date r1 = dr_date r2)"
proof -
  have dec: "date_key (dr_date r) = Inr (dr_date_key r) \<and>
      decode_date_key (dr_date_key r) = dr_date r" if "r \<in> set rows" for r
  proof -
    from gen_dates_rows [OF assms(2) assms(1) that]
    have v: "valid_date (dr_date r)" and k: "date_key (dr_date r) = Inr (dr_date_key r)"
      by simp_all
    from valid_date_small [OF v] have s: "d_month (dr_date r) < 100" "d_day (dr_date r) < 100"
      by simp_all
    from k date_key_value [OF s] have
      "dr_date_key r = d_year (dr_date r) * 10000 + d_month (dr_date r) * 100 + d_day (dr_date r)"
      by simp
    with decode_date_key_value [OF s, of "d_year (dr_date r)"] k show ?thesis
      by simp
  qed
  have inj: "dr_date r1 = dr_date r2"
    if "r1 \<in> set rows" "r2 \<in> set rows" "dr_date_key r1 = dr_date_key r2" for r1 r2
    using dec [OF that(1)] dec [OF that(2)] that(3) by simp
  from dec inj show ?thesis by blast
qed

theorem date_key_roundtrip_witness:
  "valid_date \<lparr>d_year = 2024, d_month = 2, d_day = 28\<rparr> \<and>
   gen_dates \<lparr>d_year = 2024, d_month = 2, d_day = 28\<rparr> \<lparr>d_year = 2024, d_month = 3, d_day = 1\<rparr> =
     Inr [make_date_row 20240228 \<lparr>d_year = 2024, d_month = 2, d_day = 28\<rparr>,
          make_date_row 20240229 \<lparr>d_year = 2024, d_month = 2, d_day = 29\<rparr>,
          make_date_row 20240301 \<lparr>d_year = 2024, d_month = 3, d_day = 1\<rparr>] \<and>
   date_key \<lparr>d_year = 2024, d_month = 2, d_day = 29\<rparr> = Inr 20240229 \<and>
   decode_date_key 20240229 = \<lparr>d_year = 2024, d_month = 2, d_day = 29\<rparr>"
proof -
  have v: "valid_date \<lparr>d_year = 2024, d_month = 2, d_day = 28\<rparr>"
    by (simp add: valid_date_def days_in_month_def is_leap_def)
  note g = gen_dates_example
  from date_key_roundtrip [OF v g] have
    "date_key (dr_date (make_date_row 20240229 \<lparr>d_year = 2024, d_month = 2, d_day = 29\<rparr>)) =
       Inr (dr_date_key (make_date_row 20240229 \<lparr>d_year = 2024, d_month = 2, d_day = 29\<rparr>)) \<and>
     decode_date_key (dr_date_key (make_date_row 20240229 \<lparr>d_year = 2024, d_month = 2, d_day = 29\<rparr>)) =
       dr_date (make_date_row 20240229 \<lparr>d_year = 2024, d_month = 2, d_day = 29\<rparr>)"
    by simp
  then have "date_key \<lparr>d_year = 2024, d_month = 2, d_day = 29\<rparr> = Inr 20240229 \<and>
     decode_date_key 20240229 = \<lparr>d_year = 2024, d_month = 2, d_day = 29\<rparr>"
    by (simp add: make_date_row_def)
  with v g show ?thesis by simp
qed
section \<open>Properties of the cleaned students\<close>

lemma random_admission_year_range:
  assumes "random_admission_year cy g = Inr (y, g')"
  shows "2000 \<le> y \<and> y \<le> real_of_int cy \<and> y \<in> \<int>"
proof -
  from assms obtain v where
    r: "random_randint 2019 cy g = Inr (v, g')" and y: "y = real_of_int v"
    by (auto simp: random_admission_year_def split: sum.splits)
  from random_randint_range [OF r] y show ?thesis by simp
qed

lemma astype_int_range:
  assumes "2000 \<le> astype_int y" "astype_int y \<le> cy"
  shows "2000 \<le> y \<and> y < real_of_int cy + 1"
proof (cases "0 \<le> y")
  case True
  with assms have "2000 \<le> \<lfloor>y\<rfloor>" "\<lfloor>y\<rfloor> \<le> cy" by (simp_all add: astype_int_def)
  then show ?thesis by linarith
next
  case False
  then have "\<lceil>y\<rceil> \<le> 0" by (simp add: ceiling_le_iff)
  with False assms(1) show ?thesis by (simp add: astype_int_def)
qed

text \<open>
  What the repair does ensure: the integer part of the admission year is in
  [2000, current year], so the year itself is in [2000, current year + 1), and in
  [2000, current year] when it is a whole number.
\<close>

lemma repair_admission_year_range:
  assumes "repair_admission_year cy x g = Inr (y, g')"
  shows "2000 \<le> y \<and> y < real_of_int cy + 1 \<and> (y \<in> \<int> \<longrightarrow> y \<le> real_of_int cy)"
proof -
  have int_le: "y \<le> real_of_int cy" if "y \<in> \<int>" "y < real_of_int cy + 1"
  proof -
    from that(1) obtain k where k: "y = real_of_int k" by (rule Ints_cases)
    with that(2) have "k < cy + 1" by linarith
    with k show ?thesis by simp
  qed
  consider (kept) "x = Finite y" "2000 \<le> astype_int y" "astype_int y \<le> cy"
    | (drawn) "random_admission_year cy g = Inr (y, g')"
    using assms by (auto simp: repair_admission_year_def split: pyfloat.splits if_splits)
  then have "2000 \<le> y \<and> y < real_of_int cy + 1"
  proof cases
    case kept
    then show ?thesis using astype_int_range by blast
  next
    case drawn
    from random_admission_year_range [OF this] show ?thesis by simp
  qed
  with int_le show ?thesis by blast
qed

lemma repair_admission_year_total:
  "2019 \<le> cy \<Longrightarrow> \<exists>y g'. repair_admission_year cy x g = Inr (y, g')"
  by (auto simp: repair_admission_year_def random_admission_year_def random_randint_def
      split: pyfloat.splits)

text \<open>The student steps return a frame in every year from 2019 on.\<close>

lemma transform_students_total:
  assumes "2019 \<le> current_year"
  shows "\<exists>cleaned g'. transform_students current_year today df_students g = Inr (cleaned, g')"
proof -
  have "\<exists>ys g'. apply_rng (repair_admission_year current_year)
      (map rs_admission_year df_students) g = Inr (ys, g')"
    by (rule apply_rng_total) (rule repair_admission_year_total [OF assms])
  then show ?thesis
    by (auto simp: transform_students_def Let_def)
qed

lemma transform_students_unfold:
  assumes "transform_students cy today raw g = Inr (cleaned, g')"
  obtains years where
    "apply_rng (repair_admission_year cy) (map rs_admission_year raw) g = Inr (years, g')"
    "length years = length raw"
    "cleaned = drop_duplicates st_student_id
       (map (\<lambda>s. s\<lparr>st_program := replace_program (st_program s)\<rparr>)
         (filter (\<lambda>s. 16 \<le> st_age s \<and> st_age s \<le> 60)
           (map (\<lambda>(r, y). make_student today r y) (zip raw years))))"
proof -
  from assms obtain years where
    a: "apply_rng (repair_admission_year cy) (map rs_admission_year raw) g = Inr (years, g')" and
    c: "cleaned = drop_duplicates st_student_id
       (map (\<lambda>s. s\<lparr>st_program := replace_program (st_program s)\<rparr>)
         (filter (\<lambda>s. 16 \<le> st_age s \<and> st_age s \<le> 60)
           (map (\<lambda>(r, y). make_student today r y) (zip raw years))))"
    by (auto simp: transform_students_def Let_def split: sum.splits prod.splits)
  from apply_rng_length [OF a] have "length years = length raw" by simp
  with a c that show thesis by blast
qed

text \<open>
  A run on 2025-11-03 over two rows: a student born on 2015-11-03 (derived age 10) and a
  student born on 2005-11-04 (derived age 19) with the admission year 1990.
\<close>

lemma student_age_example_10: "student_age 1762128000000000000 (Some 1446508800000000000) = 10"
  by (simp add: student_age_def timedelta_days_def ns_per_day_def astype_int_def)

lemma student_age_example_19: "student_age 1762128000000000000 (Some 1131062400000000000) = 19"
  by (simp add: student_age_def timedelta_days_def ns_per_day_def astype_int_def)

lemma transform_students_example:
  "transform_students 2025 1762128000000000000
     [\<lparr>rs_student_id = 1, rs_birth_date = Some 1446508800000000000,
       rs_admission_year = Finite 2024, rs_program = ''BS Business''\<rparr>,
      \<lparr>rs_student_id = 2, rs_birth_date = Some 1131062400000000000,
       rs_admission_year = Finite 1990, rs_program = ''BS Electrical''\<rparr>] (sconst 0) =
   Inr ([\<lparr>st_student_id = 2, st_birth_date = Some 1131062400000000000,
       st_admission_year = 2019, st_program = ''BS Electrical Engineering'', st_age = 19\<rparr>], sconst 0)"
  by (simp add: transform_students_def repair_admission_year_def random_admission_year_def
      astype_int_def make_student_def student_age_example_10 student_age_example_19
      drop_duplicates_def random_randint_def rand_index_def replace_program_def
      program_mapping_def)

text \<open>
  What holds of every cleaned student row, whatever the random draws: the age is in
  [16, 60], and the admission year is in [2000, current year + 1), in
  [2000, current year] when it is a whole number.
\<close>

lemma cleaned_students_ranges:
  assumes "transform_students current_year today df_students g = Inr (cleaned, g')"
    and "s \<in> set cleaned"
  shows "16 \<le> st_age s \<and> st_age s \<le> 60 \<and>
         2000 \<le> st_admission_year s \<and> st_admission_year s < real_of_int current_year + 1 \<and>
         (st_admission_year s \<in> \<int> \<longrightarrow> st_admission_year s \<le> real_of_int current_year)"
proof -
  note s = assms(2)
  from assms(1) obtain years where
    a: "apply_rng (repair_admission_year current_year) (map rs_admission_year df_students) g =
          Inr (years, g')" and
    c: "cleaned = drop_duplicates st_student_id
       (map (\<lambda>s. s\<lparr>st_program := replace_program (st_program s)\<rparr>)
         (filter (\<lambda>s. 16 \<le> st_age s \<and> st_age s \<le> 60)
           (map (\<lambda>(r, y). make_student today r y) (zip df_students years))))"
    by (rule transform_students_unfold)
  from s c drop_duplicates_subset obtain r y where
    ry: "(r, y) \<in> set (zip df_students years)" and
    age: "16 \<le> st_age (make_student today r y) \<and> st_age (make_student today r y) \<le> 60" and
    s_def: "s = (make_student today r y)\<lparr>st_program := replace_program (st_program (make_student today r y))\<rparr>"
    by fastforce
  from ry have "(rs_admission_year r, y) \<in> set (zip (map rs_admission_year df_students) years)"
    by (auto simp: zip_map1)
  with apply_rng_list_all2 [OF a] obtain g1 g2 where
    "repair_admission_year current_year (rs_admission_year r) g1 = Inr (y, g2)"
    by (auto simp: list_all2_iff)
  from repair_admission_year_range [OF this] age s_def show ?thesis
    by (simp add: make_student_def)
qed

text \<open>
  C2 at a student row whose admission year is 2025.9, in a run of the year 2025: the test
  \<open>2000 <= int(x) <= current_year\<close> passes on \<open>int(2025.9) = 2025\<close> and the
  cleaned row keeps 2025.9, above the current year. The age of the row, 19, is in range.
\<close>

theorem admission_year_fraction_kept:
  "transform_students 2025 1762128000000000000
     [\<lparr>rs_student_id = 2, rs_birth_date = Some 1131062400000000000,
       rs_admission_year = Finite 2025.9, rs_program = ''BS Business''\<rparr>] g =
   Inr ([\<lparr>st_student_id = 2, st_birth_date = Some 1131062400000000000,
          st_admission_year = 2025.9, st_program = ''BS Business'', st_age = 19\<rparr>], g) \<and>
   (2025 :: real) < 2025.9"
  by (simp add: transform_students_def repair_admission_year_def astype_int_def
      make_student_def student_age_example_19 drop_duplicates_def replace_program_def
      program_mapping_def)

text \<open>
  C5 as stated fails: a row whose derived age is 10 is not kept with the age 16, it is
  removed from the cleaned output.
\<close>

theorem student_age_clipped_counterexample:
  "student_age 1762128000000000000 (Some 1446508800000000000) = 10 \<and>
   transform_students 2025 1762128000000000000
     [\<lparr>rs_student_id = 1, rs_birth_date = Some 1446508800000000000,
       rs_admission_year = Finite 2024, rs_program = ''BS Business''\<rparr>] (sconst 0) =
   Inr ([], sconst 0)"
  by (simp add: transform_students_def repair_admission_year_def astype_int_def
      make_student_def student_age_example_10 drop_duplicates_def)

text \<open>
  C5, amended. The ages are filtered, not clipped: the cleaned rows are the raw rows whose
  derived age (0 for an unparsable birth date) lies in [16, 60], the first row of each
  student id, in input order, and the age of a cleaned row is the derived age itself.
\<close>

theorem cleaned_students_age_filtered:
  assumes "transform_students current_year today df_students g = Inr (cleaned, g')"
  shows "map (\<lambda>s. (st_student_id s, st_age s)) cleaned =
           drop_duplicates fst
             (filter (\<lambda>p. 16 \<le> snd p \<and> snd p \<le> 60)
                (map (\<lambda>r. (rs_student_id r, student_age today (rs_birth_date r))) df_students))"
proof -
  from assms obtain years where
    len: "length years = length df_students" and
    c: "cleaned = drop_duplicates st_student_id
       (map (\<lambda>s. s\<lparr>st_program := replace_program (st_program s)\<rparr>)
         (filter (\<lambda>s. 16 \<le> st_age s \<and> st_age s \<le> 60)
           (map (\<lambda>(r, y). make_student today r y) (zip df_students years))))"
    by (rule transform_students_unfold)
  define h where "h = (\<lambda>s::student. (st_student_id s, st_age s))"
  define with_age where "with_age = map (\<lambda>(r, y). make_student today r y) (zip df_students years)"
  have 1: "map h with_age =
      map (\<lambda>r. (rs_student_id r, student_age today (rs_birth_date r))) (map fst (zip df_students years))"
    by (simp add: h_def with_age_def make_student_def case_prod_unfold)
  have 2: "map fst (zip df_students years) = df_students"
    using len by simp
  have 3: "map h (map (\<lambda>s. s\<lparr>st_program := replace_program (st_program s)\<rparr>)
        (filter (\<lambda>s. 16 \<le> st_age s \<and> st_age s \<le> 60) with_age)) =
      filter (\<lambda>p. 16 \<le> snd p \<and> snd p \<le> 60) (map h with_age)"
    by (simp add: h_def filter_map comp_def)
  have "map h cleaned = drop_duplicates fst (map h
      (map (\<lambda>s. s\<lparr>st_program := replace_program (st_program s)\<rparr>)
        (filter (\<lambda>s. 16 \<le> st_age s \<and> st_age s \<le> 60) with_age)))"
    unfolding c with_age_def [symmetric]
    using drop_duplicates_map [of h fst] by (simp add: h_def)
  then show ?thesis
    unfolding 3 1 2 by (simp add: h_def)
qed

theorem cleaned_students_age_filtered_witness:
  "transform_students 2025 1762128000000000000
     [\<lparr>rs_student_id = 1, rs_birth_date = Some 1446508800000000000,
       rs_admission_year = Finite 2024, rs_program = ''BS Business''\<rparr>,
      \<lparr>rs_student_id = 2, rs_birth_date = Some 1131062400000000000,
       rs_admission_year = Finite 1990, rs_program = ''BS Electrical''\<rparr>] (sconst 0) =
   Inr ([\<lparr>st_student_id = 2, st_birth_date = Some 1131062400000000000,
       st_admission_year = 2019, st_program = ''BS Electrical Engineering'', st_age = 19\<rparr>], sconst 0) \<and>
   drop_duplicates fst
     (filter (\<lambda>p. 16 \<le> snd p \<and> snd p \<le> 60)
        (map (\<lambda>r. (rs_student_id r, student_age 1762128000000000000 (rs_birth_date r)))
           [\<lparr>rs_student_id = 1, rs_birth_date = Some 1446508800000000000,
       rs_admission_year = Finite 2024, rs_program = ''BS Business''\<rparr>,
            \<lparr>rs_student_id = 2, rs_birth_date = Some 1131062400000000000,
       rs_admission_year = Finite 1990, rs_program = ''BS Electrical''\<rparr>])) = [(2, 19)]"
  using cleaned_students_age_filtered [OF transform_students_example] transform_students_example
  by simp
section \<open>Properties of the salary repair\<close>

lemma round_half_even_cases: "round_half_even x = \<lfloor>x\<rfloor> \<or> round_half_even x = \<lfloor>x\<rfloor> + 1"
proof -
  have g: "(if a then f else if b then f + 1 else if c then f else f + 1) = f \<or>
      (if a then f else if b then f + 1 else if c then f else f + 1) = f + 1"
    for a b c and f :: int
    by simp
  show ?thesis
    unfolding round_half_even_def Let_def by (rule g)
qed

lemma round_half_even_of_int: "round_half_even (real_of_int k) = k"
  unfolding round_half_even_def Let_def by simp

lemma round_half_even_lower: "real_of_int k \<le> x \<Longrightarrow> k \<le> round_half_even x"
proof -
  assume "real_of_int k \<le> x"
  then have "k \<le> \<lfloor>x\<rfloor>" by (simp add: le_floor_iff)
  with round_half_even_cases [of x] show ?thesis by linarith
qed

lemma round_half_even_upper: "x \<le> real_of_int k \<Longrightarrow> round_half_even x \<le> k"
proof -
  assume x: "x \<le> real_of_int k"
  show ?thesis
  proof (cases "x = real_of_int k")
    case True
    then show ?thesis by (simp only: round_half_even_of_int)
  next
    case False
    with x have "x < real_of_int k" by simp
    then have "\<lfloor>x\<rfloor> < k" by (simp add: floor_less_iff)
    with round_half_even_cases [of x] show ?thesis by linarith
  qed
qed

lemma py_round_bounds:
  assumes "real_of_int a \<le> x" "x \<le> real_of_int b"
  shows "real_of_int a \<le> py_round nd x \<and> py_round nd x \<le> real_of_int b"
proof -
  have p: "(0::real) < 10 ^ nd" by simp
  have "real_of_int (a * 10 ^ nd) \<le> x * 10 ^ nd" using assms(1) by simp
  from round_half_even_lower [OF this]
  have "real_of_int (a * 10 ^ nd) \<le> real_of_int (round_half_even (x * 10 ^ nd))"
    by (simp only: of_int_le_iff)
  then have "real_of_int a * 10 ^ nd \<le> real_of_int (round_half_even (x * 10 ^ nd))"
    by simp
  then have lo: "real_of_int a \<le> py_round nd x"
    unfolding py_round_def using p by (simp only: pos_le_divide_eq)
  have "x * 10 ^ nd \<le> real_of_int (b * 10 ^ nd)" using assms(2) by simp
  from round_half_even_upper [OF this]
  have "real_of_int (round_half_even (x * 10 ^ nd)) \<le> real_of_int (b * 10 ^ nd)"
    by (simp only: of_int_le_iff)
  then have "real_of_int (round_half_even (x * 10 ^ nd)) \<le> real_of_int b * 10 ^ nd"
    by simp
  then have hi: "py_round nd x \<le> real_of_int b"
    unfolding py_round_def using p by (simp only: pos_divide_le_eq)
  from lo hi show ?thesis ..
qed

lemma salary_band_cases:
  "salary_band t \<in> snd ` set salary_ranges \<union> {default_range}"
proof (cases "map_of salary_ranges t")
  case None
  then show ?thesis by (simp add: salary_band_def)
next
  case (Some b)
  then have "(t, b) \<in> set salary_ranges" by (rule map_of_SomeD)
  then have "b \<in> snd ` set salary_ranges" by force
  with Some show ?thesis by (simp add: salary_band_def)
qed

lemma salary_band_integral:
  "fst (salary_band t) \<in> \<int> \<and> snd (salary_band t) \<in> \<int> \<and> fst (salary_band t) \<le> snd (salary_band t)"
proof -
  have "\<forall>p \<in> snd ` set salary_ranges \<union> {default_range}.
      fst p \<in> \<int> \<and> snd p \<in> \<int> \<and> fst p \<le> snd p"
    unfolding salary_ranges_def default_range_def by simp
  with salary_band_cases [of t] show ?thesis by blast
qed

lemma py_round_band:
  assumes "lo \<in> \<int>" "hi \<in> \<int>" "lo \<le> x" "x \<le> hi"
  shows "lo \<le> py_round nd x \<and> py_round nd x \<le> hi"
proof -
  from assms(1) obtain a where a: "lo = real_of_int a" by (rule Ints_cases)
  from assms(2) obtain b where b: "hi = real_of_int b" by (rule Ints_cases)
  from py_round_bounds [of a x b nd] assms(3,4) a b show ?thesis by simp
qed

text \<open>The last step of \<open>adjust_salary\<close>, on a salary that is a number.\<close>

lemma adjust_salary_finish:
  assumes band: "lo \<in> \<int>" "hi \<in> \<int>" "lo \<le> hi"
  shows "\<exists>v. fst (if float_lt (Finite x) lo \<or> float_gt (Finite x) hi
                   then (let (u, g2) = random_uniform lo hi g1 in (Finite (py_round 2 u), g2))
                   else (round_float 2 (Finite x), g1)) = Finite v \<and> lo \<le> v \<and> v \<le> hi"
proof (cases "x < lo \<or> hi < x")
  case True
  obtain u g2 where u: "random_uniform lo hi g1 = (u, g2)" by (cases "random_uniform lo hi g1")
  from random_uniform_range [OF band(3) u] have "lo \<le> u \<and> u \<le> hi" .
  with py_round_band [OF band(1,2), of u 2] True u show ?thesis by simp
next
  case False
  then have "lo \<le> x" "x \<le> hi" by simp_all
  with py_round_band [OF band(1,2), of x 2] False show ?thesis by simp
qed

lemma adjust_salary_number:
  assumes "re_salary row = Number (Finite x)"
  shows "\<exists>v. fst (adjust_salary row g) = Finite v \<and>
           fst (salary_band (re_job_title row)) \<le> v \<and> v \<le> snd (salary_band (re_job_title row))"
proof -
  obtain lo hi where b: "salary_band (re_job_title row) = (lo, hi)"
    by (cases "salary_band (re_job_title row)")
  from salary_band_integral [of "re_job_title row"] b
  have band: "lo \<in> \<int>" "hi \<in> \<int>" "lo \<le> hi" by simp_all
  from adjust_salary_finish [OF band, of x g] assms b show ?thesis
    by (simp add: adjust_salary_def py_float_def)
qed

lemma salary_band_dept_head: "salary_band ''Department Head'' = (80000, 130000)"
  by (simp add: salary_band_def salary_ranges_def)

lemma salary_band_lecturer: "salary_band ''Lecturer'' = (40000, 60000)"
  by (simp add: salary_band_def salary_ranges_def)

lemma py_round_125000: "py_round 2 125000 = 125000"
  by (simp add: py_round_def round_half_even_def)

text \<open>
  C6 as stated fails: for a Department Head with an unparsable salary the first draw from
  the default band, 30000, is below the band of the title, so the salary is drawn again
  from the band of the title, here 125000, which is outside the default band.
\<close>

theorem adjust_salary_unparsable_counterexample:
  "fst (adjust_salary
      \<lparr>re_employee_id = 7, re_job_title = ''Department Head'', re_salary = Unparsable ''abc'',
       re_department_id = 1, re_manager_id = None, re_hire_date = None\<rparr>
      (0 ## 9 / 10 ## sconst 0)) = Finite 125000 \<and>
   snd default_range < 125000"
  by (simp add: adjust_salary_def salary_band_dept_head py_float_def default_range_def
      random_uniform_def py_round_125000)

text \<open>
  C6, amended. For an employee row whose salary \<open>float\<close> rejects, the repaired salary
  lies in the band of the row's job title (the default band for an unrecognized title): a
  first draw from the default band is kept, rounded, when it lies in the band of the
  title, and is otherwise replaced by a second draw from the band of the title.
\<close>

theorem adjust_salary_unparsable:
  assumes "re_salary row = Unparsable txt"
  shows "(\<exists>v. fst (adjust_salary row g) = Finite v \<and>
            fst (salary_band (re_job_title row)) \<le> v \<and> v \<le> snd (salary_band (re_job_title row))) \<and>
         fst (adjust_salary row g) =
           (let u0 = fst (random_uniform 30000 120000 g)
            in if u0 < fst (salary_band (re_job_title row)) \<or> snd (salary_band (re_job_title row)) < u0
               then Finite (py_round 2
                      (fst (random_uniform (fst (salary_band (re_job_title row)))
                         (snd (salary_band (re_job_title row))) (stl g))))
               else Finite (py_round 2 u0))"
proof -
  obtain lo hi where b: "salary_band (re_job_title row) = (lo, hi)"
    by (cases "salary_band (re_job_title row)")
  from salary_band_integral [of "re_job_title row"] b
  have band: "lo \<in> \<int>" "hi \<in> \<int>" "lo \<le> hi" by simp_all
  have eq: "adjust_salary row g =
      (if float_lt (Finite (fst (random_uniform 30000 120000 g))) lo \<or>
          float_gt (Finite (fst (random_uniform 30000 120000 g))) hi
       then (let (u, g2) = random_uniform lo hi (stl g) in (Finite (py_round 2 u), g2))
       else (round_float 2 (Finite (fst (random_uniform 30000 120000 g))), stl g))"
    using assms b
    by (simp add: adjust_salary_def py_float_def default_range_def random_uniform_def Let_def)
  from adjust_salary_finish [OF band, of "fst (random_uniform 30000 120000 g)" "stl g"] eq b
  have 1: "\<exists>v. fst (adjust_salary row g) = Finite v \<and>
        fst (salary_band (re_job_title row)) \<le> v \<and> v \<le> snd (salary_band (re_job_title row))"
    by simp
  have 2: "fst (adjust_salary row g) =
      (let u0 = fst (random_uniform 30000 120000 g)
       in if u0 < fst (salary_band (re_job_title row)) \<or> snd (salary_band (re_job_title row)) < u0
          then Finite (py_round 2
                 (fst (random_uniform (fst (salary_band (re_job_title row)))
                    (snd (salary_band (re_job_title row))) (stl g))))
          else Finite (py_round 2 u0))"
    unfolding eq b by (simp add: Let_def random_uniform_def)
  from 1 2 show ?thesis ..
qed

theorem adjust_salary_unparsable_witness:
  "re_salary \<lparr>re_employee_id = 7, re_job_title = ''Department Head'', re_salary = Unparsable ''abc'',
       re_department_id = 1, re_manager_id = None, re_hire_date = None\<rparr> = Unparsable ''abc'' \<and>
   fst (adjust_salary
      \<lparr>re_employee_id = 7, re_job_title = ''Department Head'', re_salary = Unparsable ''abc'',
       re_department_id = 1, re_manager_id = None, re_hire_date = None\<rparr>
      (0 ## 9 / 10 ## sconst 0)) = Finite 125000 \<and>
   fst (salary_band ''Department Head'') \<le> 125000 \<and> 125000 \<le> snd (salary_band ''Department Head'')"
proof -
  have s: "re_salary \<lparr>re_employee_id = 7, re_job_title = ''Department Head'',
      re_salary = Unparsable ''abc'', re_department_id = 1, re_manager_id = None,
      re_hire_date = None\<rparr> = Unparsable ''abc''"
    by simp
  from adjust_salary_unparsable [OF s, of "0 ## 9 / 10 ## sconst 0"] show ?thesis
    by (simp add: salary_band_dept_head random_uniform_def py_round_125000)
qed

text \<open>
  C3 at an employee row with an empty salary cell (NaN): both comparisons with the band
  are false, so the cleaned row keeps NaN as its salary, which lies in no band. Rows with
  a numeric salary do end in their band (\<open>adjust_salary_number\<close>).
\<close>

theorem adjust_salary_missing_value:
  "transform_employees 1762128000000000000 [1]
     [\<lparr>re_employee_id = 3, re_job_title = ''Lecturer'', re_salary = Number NaN,
       re_department_id = 1, re_manager_id = None, re_hire_date = None\<rparr>] g =
   Inr ([\<lparr>em_employee_id = 3, em_job_title = ''Lecturer'', em_salary = NaN,
          em_department_id = 1, em_manager_id = 0, em_hire_date = None,
          em_tenure_years = 0\<rparr>], g)"
  by (simp add: transform_employees_def repair_department_def adjust_salary_def
      salary_band_lecturer py_float_def make_employee_def tenure_years_def drop_duplicates_def)
section \<open>Properties of ensure\_sql\_types\_before\_load\<close>

lemma set_column_names: "c \<in> fst ` set df \<Longrightarrow> map fst (set_column c v df) = map fst df"
  by (induction df) force+

lemma map_of_set_column: "map_of (set_column c v df) = (map_of df)(c \<mapsto> v)"
  by (induction df) (auto simp: fun_eq_iff)

lemma convert_columns_frame:
  assumes "distinct cols" "set cols \<subseteq> fst ` set df"
  shows "\<exists>df'. convert_columns to_datetime cols df = Inr df' \<and>
           map fst df' = map fst df \<and>
           (\<forall>c. map_of df' c =
              (if c \<in> set cols \<and> is_date_column c
               then map_option (\<lambda>v. map dt_date (to_datetime v)) (map_of df c)
               else map_of df c))"
  using assms
proof (induction cols arbitrary: df)
  case Nil
  then show ?case by simp
next
  case (Cons col cols)
  show ?case
  proof (cases "is_date_column col")
    case False
    from Cons.prems have "distinct cols" "set cols \<subseteq> fst ` set df" by simp_all
    from Cons.IH [OF this] False show ?thesis by auto
  next
    case True
    from Cons.prems have "col \<in> fst ` set df" by simp
    then obtain v where v: "map_of df col = Some v"
      by (metis domD dom_map_of_conv_image_fst)
    define df1 where "df1 = set_column col (map dt_date (to_datetime v)) df"
    have n1: "map fst df1 = map fst df"
      unfolding df1_def using \<open>col \<in> fst ` set df\<close> by (rule set_column_names)
    then have "fst ` set df1 = fst ` set df"
      by (metis list.set_map)
    with Cons.prems have "distinct cols" "set cols \<subseteq> fst ` set df1" by simp_all
    from Cons.IH [OF this] obtain df' where
      r: "convert_columns to_datetime cols df1 = Inr df'" and
      n: "map fst df' = map fst df1" and
      m: "\<forall>c. map_of df' c =
              (if c \<in> set cols \<and> is_date_column c
               then map_option (\<lambda>v. map dt_date (to_datetime v)) (map_of df1 c)
               else map_of df1 c)"
      by blast
    have m1: "map_of df1 = (map_of df)(col \<mapsto> map dt_date (to_datetime v))"
      unfolding df1_def by (rule map_of_set_column)
    have "convert_columns to_datetime (col # cols) df = Inr df'"
      using True v r by (simp add: df1_def)
    moreover have "map fst df' = map fst df" using n n1 by simp
    moreover have "\<forall>c. map_of df' c =
              (if c \<in> set (col # cols) \<and> is_date_column c
               then map_option (\<lambda>v. map dt_date (to_datetime v)) (map_of df c)
               else map_of df c)"
      using m m1 True v Cons.prems(1) by auto
    ultimately show ?thesis by blast
  qed
qed

lemma dt_date_cases: "dt_date t = Null \<or> (\<exists>d. dt_date t = DateCell d)"
  by (cases t) (simp_all add: dt_date_def)

lemma is_date_column_examples:
  "is_date_column ''birth_date''" "is_date_column ''created_at''" "is_date_column ''date''"
  "\<not> is_date_column ''student_id''" "\<not> is_date_column ''format''"
  by (simp_all add: is_date_column_def endswith_def)

text \<open>
  C10. \<open>ensure_sql_types_before_load\<close> returns a new frame with the columns of its
  input, in the same order. A column named \<open>date\<close> or ending in \<open>_date\<close> or
  \<open>_at\<close> holds the calendar dates of the timestamps \<open>to_datetime\<close> gives for it
  (the null where a value does not parse); every other column is the input's. No frame
  of the store, the input included, is changed.
\<close>

theorem ensure_sql_types_frame:
  assumes "r < length h" and "distinct (map fst (h ! r))"
  shows "\<exists>h' r'. ensure_sql_types_before_load to_datetime h r = Inr (h', r') \<and>
           r' = length h \<and> length h' = Suc (length h) \<and>
           (\<forall>q<length h. h' ! q = h ! q) \<and>
           map fst (h' ! r') = map fst (h ! r) \<and>
           (\<forall>(c, v)\<in>set (h ! r).
              map_of (h' ! r') c =
                Some (if is_date_column c then map dt_date (to_datetime v) else v))"
proof -
  define df where "df = h ! r"
  have "set (map fst df) \<subseteq> fst ` set df" by simp
  from convert_columns_frame [OF assms(2) [folded df_def] this, of to_datetime] obtain df' where
    c: "convert_columns to_datetime (map fst df) df = Inr df'" and
    n: "map fst df' = map fst df" and
    m: "\<forall>c. map_of df' c =
              (if c \<in> set (map fst df) \<and> is_date_column c
               then map_option (\<lambda>v. map dt_date (to_datetime v)) (map_of df c)
               else map_of df c)"
    by blast
  have e: "ensure_sql_types_before_load to_datetime h r = Inr ((h @ [df])[length h := df'], length h)"
    using c by (simp add: ensure_sql_types_before_load_def df_def Let_def)
  have old: "\<forall>q<length h. ((h @ [df])[length h := df']) ! q = h ! q"
    by (simp add: nth_append)
  have new: "((h @ [df])[length h := df']) ! length h = df'"
    by simp
  have cells: "\<forall>(c, v)\<in>set df. map_of df' c =
      Some (if is_date_column c then map dt_date (to_datetime v) else v)"
  proof (clarify)
    fix c v assume cv: "(c, v) \<in> set df"
    with assms(2) have "map_of df c = Some v" by (simp add: df_def)
    moreover from cv have "c \<in> set (map fst df)" by force
    ultimately show "map_of df' c = Some (if is_date_column c then map dt_date (to_datetime v) else v)"
      using m by simp
  qed
  from e old new n cells show ?thesis
    unfolding df_def by simp
qed

theorem ensure_sql_types_frame_witness:
  "\<exists>h' r'.
     ensure_sql_types_before_load (map (\<lambda>c. case c of TimestampCell t \<Rightarrow> Some t | _ \<Rightarrow> None))
       [[(''student_id'', [IntCell 1, IntCell 2]),
         (''birth_date'', [TimestampCell 1131062400000000000, TextCell ''n/a'']),
         (''format'', [TextCell ''a'', Null])]] 0 = Inr (h', r') \<and>
     r' = 1 \<and>
     h' ! 0 = [(''student_id'', [IntCell 1, IntCell 2]),
         (''birth_date'', [TimestampCell 1131062400000000000, TextCell ''n/a'']),
         (''format'', [TextCell ''a'', Null])] \<and>
     map fst (h' ! r') = [''student_id'', ''birth_date'', ''format''] \<and>
     map_of (h' ! r') ''student_id'' = Some [IntCell 1, IntCell 2] \<and>
     map_of (h' ! r') ''birth_date'' = Some [DateCell 13091, Null] \<and>
     map_of (h' ! r') ''format'' = Some [TextCell ''a'', Null]"
proof -
  define h where "h = [[(''student_id'', [IntCell 1, IntCell 2]),
         (''birth_date'', [TimestampCell 1131062400000000000, TextCell ''n/a'']),
         (''format'', [TextCell ''a'', Null])]]"
  define f where "f = map (\<lambda>c. case c of TimestampCell t \<Rightarrow> Some t | _ \<Rightarrow> None)"
  have r: "0 < length h" by (simp add: h_def)
  have d: "distinct (map fst (h ! 0))" by (simp add: h_def)
  from ensure_sql_types_frame [OF r d, of f] obtain h' r' where
    e: "ensure_sql_types_before_load f h 0 = Inr (h', r')" and
    r': "r' = length h" and
    old: "\<forall>q<length h. h' ! q = h ! q" and
    n: "map fst (h' ! r') = map fst (h ! 0)" and
    cells: "\<forall>(c, v)\<in>set (h ! 0).
              map_of (h' ! r') c = Some (if is_date_column c then map dt_date (f v) else v)"
    by blast
  from r' have 1: "r' = 1" by (simp add: h_def)
  from old have 2: "h' ! 0 = h ! 0" by (simp add: h_def)
  from cells have 3: "map_of (h' ! r') ''student_id'' = Some [IntCell 1, IntCell 2]"
    and 4: "map_of (h' ! r') ''birth_date'' = Some [DateCell 13091, Null]"
    and 5: "map_of (h' ! r') ''format'' = Some [TextCell ''a'', Null]"
    by (simp_all add: h_def f_def is_date_column_examples dt_date_def ns_per_day_def)
  from e 1 2 n 3 4 5 show ?thesis
    unfolding h_def f_def by simp
qed
section \<open>Properties of the schema rebuild\<close>

lemma sql_type_int [simp]: "sql_type ''INT'' = ''INT''" "sql_type ''INT PRIMARY KEY'' = ''INT''"
  by (simp_all add: sql_type_def)

lemma column_indexed_pk [simp]: "column_indexed ''INT PRIMARY KEY''"
  by (simp add: column_indexed_def)



























section \<open>Properties of the Loader\<close>

lemma set_unique: "set (unique xs) = set xs"
  using drop_duplicates_keys [of "\<lambda>x. x" xs] by (simp add: unique_def)

lemma distinct_unique: "distinct (unique xs)"
  using drop_duplicates_distinct [of "\<lambda>x. x" xs] by (simp add: unique_def)

lemma repair_department_valid:
  assumes "repair_department valid x g = Inr (d, g')"
  shows "d \<in> set valid \<and> (x \<in> set valid \<longrightarrow> d = x \<and> g' = g)"
proof (cases "x \<in> set valid")
  case True
  with assms show ?thesis by (simp add: repair_department_def)
next
  case False
  with assms have "random_choice (unique valid) g = Inr (d, g')"
    by (simp add: repair_department_def)
  from random_choice_member [OF this] False show ?thesis by (simp add: set_unique)
qed

text \<open>With at least one department the Loader writes the employees.\<close>

lemma repair_department_total:
  assumes "valid \<noteq> []"
  shows "\<exists>d g'. repair_department valid x g = Inr (d, g')"
proof -
  from assms have "set (unique valid) \<noteq> {}" by (simp add: set_unique)
  then have "unique valid \<noteq> []" by auto
  then show ?thesis by (simp add: repair_department_def random_choice_def)
qed

lemma load_transformed_data_total:
  assumes "td_departments transformed_data \<noteq> []"
  shows "\<exists>wh' printed g'. load_transformed_data transformed_data wh g = Inr (wh', printed, g')"
proof -
  have "\<exists>ys g'. apply_rng (repair_department (map dp_department_id (td_departments transformed_data)))
      (map em_department_id (td_employees transformed_data)) g = Inr (ys, g')"
    by (rule apply_rng_total) (rule repair_department_total, simp add: assms)
  then obtain ys g' where
    a: "apply_rng (repair_department (map dp_department_id (td_departments transformed_data)))
      (map em_department_id (td_employees transformed_data)) g = Inr (ys, g')" by blast
  show ?thesis
    unfolding load_transformed_data_def Let_def by (simp add: a)
qed

lemma load_example:
  "load_transformed_data
     \<lparr>td_students = [],
      td_employees =
        [\<lparr>em_employee_id = 3, em_job_title = ''Professor'', em_salary = Finite 90000,
          em_department_id = 99, em_manager_id = 0, em_hire_date = None, em_tenure_years = 0\<rparr>],
      td_departments =
        [\<lparr>dp_department_id = 1, dp_department_name = ''Business'', dp_manager_id = Some 0\<rparr>,
         \<lparr>dp_department_id = 2, dp_department_name = ''Finance'', dp_manager_id = Some 0\<rparr>,
         \<lparr>dp_department_id = 3, dp_department_name = ''Mathematics'', dp_manager_id = Some 0\<rparr>]\<rparr>
     \<lparr>wh_dim_department = [], wh_dim_student = [], wh_dim_employee = []\<rparr> (sconst 0) =
   Inr (\<lparr>wh_dim_department =
          [\<lparr>dp_department_id = 1, dp_department_name = ''Business'', dp_manager_id = Some 0\<rparr>,
           \<lparr>dp_department_id = 2, dp_department_name = ''Finance'', dp_manager_id = Some 0\<rparr>,
           \<lparr>dp_department_id = 3, dp_department_name = ''Mathematics'', dp_manager_id = Some 0\<rparr>],
         wh_dim_student = [],
         wh_dim_employee =
          [\<lparr>em_employee_id = 3, em_job_title = ''Professor'', em_salary = Finite 90000,
            em_department_id = 1, em_manager_id = 0, em_hire_date = None, em_tenure_years = 0\<rparr>]\<rparr>,
        [InvalidDepartmentWarning {99}], sconst 0)"
  by (simp add: load_transformed_data_def Let_def repair_department_def random_choice_def
      unique_def drop_duplicates_def rand_index_def)

text \<open>
  C1. Whenever the Loader writes the employees, every row it writes refers to a department
  among those it has just persisted. A row is written as the Transformer left it when its
  reference is valid against the persisted departments; otherwise only its reference is
  changed, to a random valid department id, and a warning naming the invalid ids is
  printed. Without any invalid reference nothing is changed and nothing is printed.
\<close>

theorem loader_department_references:
  assumes "load_transformed_data transformed_data wh g = Inr (wh', printed, g')"
  shows "\<exists>written.
           wh_dim_employee wh' = wh_dim_employee wh @ written \<and>
           wh_dim_department wh' = wh_dim_department wh @ td_departments transformed_data \<and>
           list_all2
             (\<lambda>e w. w = e\<lparr>em_department_id := em_department_id w\<rparr> \<and>
                em_department_id w \<in> dp_department_id ` set (td_departments transformed_data) \<and>
                (em_department_id e \<in> dp_department_id ` set (td_departments transformed_data)
                   \<longrightarrow> w = e))
             (td_employees transformed_data) written \<and>
           (\<forall>w\<in>set written. em_department_id w \<in> dp_department_id ` set (wh_dim_department wh')) \<and>
           printed =
             (if \<forall>e\<in>set (td_employees transformed_data).
                   em_department_id e \<in> dp_department_id ` set (td_departments transformed_data)
              then []
              else [InvalidDepartmentWarning
                      (em_department_id ` set (td_employees transformed_data) -
                       dp_department_id ` set (td_departments transformed_data))])"
proof -
  define emps where "emps = td_employees transformed_data"
  define valid where "valid = map dp_department_id (td_departments transformed_data)"
  define P where "P = (\<lambda>(e::employee) (w::employee). w = e\<lparr>em_department_id := em_department_id w\<rparr> \<and>
                em_department_id w \<in> set valid \<and> (em_department_id e \<in> set valid \<longrightarrow> w = e))"
  have sv: "dp_department_id ` set (td_departments transformed_data) = set valid"
    by (simp add: valid_def)
  have goal: "\<exists>written.
           wh_dim_employee wh' = wh_dim_employee wh @ written \<and>
           wh_dim_department wh' = wh_dim_department wh @ td_departments transformed_data \<and>
           list_all2 P emps written \<and>
           printed =
             (if \<forall>e\<in>set emps. em_department_id e \<in> set valid then []
              else [InvalidDepartmentWarning (em_department_id ` set emps - set valid)])"
  proof (cases "em_department_id ` set emps - set valid = {}")
    case True
    then have all: "\<forall>e\<in>set emps. em_department_id e \<in> set valid" by auto
    from assms True have
      "wh_dim_employee wh' = wh_dim_employee wh @ emps"
      "wh_dim_department wh' = wh_dim_department wh @ td_departments transformed_data"
      "printed = []"
      by (auto simp: load_transformed_data_def Let_def emps_def valid_def)
    moreover have "list_all2 P emps emps"
      using all by (simp add: list_all2_conv_all_nth P_def)
    ultimately show ?thesis using all by auto
  next
    case False
    then have nall: "\<not> (\<forall>e\<in>set emps. em_department_id e \<in> set valid)" by auto
    from assms False obtain depts where
      a: "apply_rng (repair_department valid) (map em_department_id emps) g = Inr (depts, g')" and
      w: "wh_dim_employee wh' = wh_dim_employee wh @
            map (\<lambda>(e, d). e\<lparr>em_department_id := d\<rparr>) (zip emps depts)" and
      d: "wh_dim_department wh' = wh_dim_department wh @ td_departments transformed_data" and
      p: "printed = [InvalidDepartmentWarning (em_department_id ` set emps - set valid)]"
      by (auto simp: load_transformed_data_def Let_def emps_def valid_def
          split: sum.splits prod.splits)
    from apply_rng_list_all2 [OF a] have
      l: "length depts = length emps" and
      r: "\<forall>i<length emps. \<exists>g1 g2.
            repair_department valid (em_department_id (emps ! i)) g1 = Inr (depts ! i, g2)"
      by (simp_all add: list_all2_conv_all_nth)
    have "list_all2 P emps (map (\<lambda>(e, d). e\<lparr>em_department_id := d\<rparr>) (zip emps depts))"
    proof (rule list_all2_all_nthI)
      show "length emps = length (map (\<lambda>(e, d). e\<lparr>em_department_id := d\<rparr>) (zip emps depts))"
        using l by simp
    next
      fix i assume i: "i < length emps"
      with r obtain g1 g2 where
        "repair_department valid (em_department_id (emps ! i)) g1 = Inr (depts ! i, g2)"
        by blast
      from repair_department_valid [OF this] i l
      show "P (emps ! i) (map (\<lambda>(e, d). e\<lparr>em_department_id := d\<rparr>) (zip emps depts) ! i)"
        by (auto simp: P_def)
    qed
    with w d p nall show ?thesis by auto
  qed
  then obtain written where
    1: "wh_dim_employee wh' = wh_dim_employee wh @ written" and
    2: "wh_dim_department wh' = wh_dim_department wh @ td_departments transformed_data" and
    3: "list_all2 P emps written" and
    4: "printed =
             (if \<forall>e\<in>set emps. em_department_id e \<in> set valid then []
              else [InvalidDepartmentWarning (em_department_id ` set emps - set valid)])"
    by blast
  have 5: "\<forall>w\<in>set written. em_department_id w \<in> dp_department_id ` set (wh_dim_department wh')"
  proof
    fix w assume "w \<in> set written"
    then obtain i where "i < length written" "w = written ! i" by (auto simp: in_set_conv_nth)
    with 3 have "em_department_id w \<in> set valid"
      by (auto simp: list_all2_conv_all_nth P_def)
    then show "em_department_id w \<in> dp_department_id ` set (wh_dim_department wh')"
      unfolding 2 sv [symmetric] by auto
  qed
  from 1 2 3 4 5 show ?thesis
    unfolding P_def emps_def sv by blast
qed

theorem loader_department_references_witness:
  "load_transformed_data
     \<lparr>td_students = [],
      td_employees =
        [\<lparr>em_employee_id = 3, em_job_title = ''Professor'', em_salary = Finite 90000,
          em_department_id = 99, em_manager_id = 0, em_hire_date = None, em_tenure_years = 0\<rparr>],
      td_departments =
        [\<lparr>dp_department_id = 1, dp_department_name = ''Business'', dp_manager_id = Some 0\<rparr>,
         \<lparr>dp_department_id = 2, dp_department_name = ''Finance'', dp_manager_id = Some 0\<rparr>,
         \<lparr>dp_department_id = 3, dp_department_name = ''Mathematics'', dp_manager_id = Some 0\<rparr>]\<rparr>
     \<lparr>wh_dim_department = [], wh_dim_student = [], wh_dim_employee = []\<rparr> (sconst 0) =
   Inr (\<lparr>wh_dim_department =
          [\<lparr>dp_department_id = 1, dp_department_name = ''Business'', dp_manager_id = Some 0\<rparr>,
           \<lparr>dp_department_id = 2, dp_department_name = ''Finance'', dp_manager_id = Some 0\<rparr>,
           \<lparr>dp_department_id = 3, dp_department_name = ''Mathematics'', dp_manager_id = Some 0\<rparr>],
         wh_dim_student = [],
         wh_dim_employee =
          [\<lparr>em_employee_id = 3, em_job_title = ''Professor'', em_salary = Finite 90000,
            em_department_id = 1, em_manager_id = 0, em_hire_date = None, em_tenure_years = 0\<rparr>]\<rparr>,
        [InvalidDepartmentWarning {99}], sconst 0) \<and>
   em_department_id
     \<lparr>em_employee_id = 3, em_job_title = ''Professor'', em_salary = Finite 90000,
      em_department_id = 1, em_manager_id = 0, em_hire_date = None, em_tenure_years = 0\<rparr> \<in>
     dp_department_id `
       set [\<lparr>dp_department_id = 1, dp_department_name = ''Business'', dp_manager_id = Some 0\<rparr>,
            \<lparr>dp_department_id = 2, dp_department_name = ''Finance'', dp_manager_id = Some 0\<rparr>,
            \<lparr>dp_department_id = 3, dp_department_name = ''Mathematics'', dp_manager_id = Some 0\<rparr>]"
proof -
  from loader_department_references [OF load_example] obtain written where
    w: "[\<lparr>em_employee_id = 3, em_job_title = ''Professor'', em_salary = Finite 90000,
         em_department_id = 1, em_manager_id = 0, em_hire_date = None,
         em_tenure_years = 0\<rparr>] = written" and
    v: "\<forall>w\<in>set written. em_department_id w \<in> dp_department_id `
       set [\<lparr>dp_department_id = 1, dp_department_name = ''Business'', dp_manager_id = Some 0\<rparr>,
            \<lparr>dp_department_id = 2, dp_department_name = ''Finance'', dp_manager_id = Some 0\<rparr>,
            \<lparr>dp_department_id = 3, dp_department_name = ''Mathematics'', dp_manager_id = Some 0\<rparr>]"
    by auto
  from v have "em_department_id
     \<lparr>em_employee_id = 3, em_job_title = ''Professor'', em_salary = Finite 90000,
      em_department_id = 1, em_manager_id = 0, em_hire_date = None, em_tenure_years = 0\<rparr> \<in>
     dp_department_id `
       set [\<lparr>dp_department_id = 1, dp_department_name = ''Business'', dp_manager_id = Some 0\<rparr>,
            \<lparr>dp_department_id = 2, dp_department_name = ''Finance'', dp_manager_id = Some 0\<rparr>,
            \<lparr>dp_department_id = 3, dp_department_name = ''Mathematics'', dp_manager_id = Some 0\<rparr>]"
    unfolding w [symmetric] by simp
  with load_example show ?thesis by (rule conjI)
qed
section \<open>Properties of the synthesized facts\<close>

lemma apply_rng_set:
  assumes "apply_rng f xs g = Inr (ys, g')" and "y \<in> set ys"
  shows "\<exists>x\<in>set xs. \<exists>g1 g2. f x g1 = Inr (y, g2)"
proof -
  from assms(2) obtain i where i: "i < length ys" "y = ys ! i" by (auto simp: in_set_conv_nth)
  from apply_rng_list_all2 [OF assms(1)] i have
    "i < length xs" "\<exists>g1 g2. f (xs ! i) g1 = Inr (y, g2)"
    by (auto simp: list_all2_conv_all_nth)
  then show ?thesis by (metis nth_mem)
qed

lemma clip_round_bounds:
  "real_of_int a \<le> real_of_int b \<Longrightarrow>
     real_of_int a \<le> py_round nd (max (real_of_int a) (min (real_of_int b) x)) \<and>
     py_round nd (max (real_of_int a) (min (real_of_int b) x)) \<le> real_of_int b"
  by (rule py_round_bounds) simp_all

lemma clip_round_grade: "0 \<le> py_round nd (max 0 (min 100 x)) \<and> py_round nd (max 0 (min 100 x)) \<le> 100"
  using clip_round_bounds [of 0 100 nd x] by simp

lemma clip_round_attendance: "60 \<le> py_round nd (max 60 (min 100 x)) \<and> py_round nd (max 60 (min 100 x)) \<le> 100"
  using clip_round_bounds [of 60 100 nd x] by simp

lemma clip_round_performance: "1 \<le> py_round nd (max 1 (min 5 x)) \<and> py_round nd (max 1 (min 5 x)) \<le> 5"
  using clip_round_bounds [of 1 5 nd x] by simp

lemma academic_measures_shape:
  "\<exists>x y z g'. academic_measures student course g =
     ((py_round 1 (max 0 (min 100 x)), py_round 1 (max 60 (min 100 y)), z), g')"
  unfolding academic_measures_def Let_def random_gauss_def random_random_def prod.case
  by (intro exI) (rule refl)

lemma academic_measures_bounds:
  assumes "academic_measures student course g = ((grade, attendance, fee), g')"
  shows "0 \<le> grade \<and> grade \<le> 100 \<and> 60 \<le> attendance \<and> attendance \<le> 100"
proof -
  from academic_measures_shape [of student course g] assms obtain x y where
    "grade = py_round 1 (max 0 (min 100 x))" "attendance = py_round 1 (max 60 (min 100 y))"
    by auto
  with clip_round_grade [of 1 x] clip_round_attendance [of 1 y] show ?thesis
    by (simp only:)
qed

lemma academic_record_result:
  assumes "academic_record df_students df_courses df_employees df_dates sid g = Inr (a, g')"
  shows "af_student_id a = sid \<and> 0 \<le> af_grade a \<and> af_grade a \<le> 100 \<and>
         60 \<le> af_attendance_percent a \<and> af_attendance_percent a \<le> 100"
proof -
  from assms obtain student course g3 grade att fee g4 where
    m: "academic_measures student course g3 = ((grade, att, fee), g4)" and
    a: "af_student_id a = sid" "af_grade a = grade" "af_attendance_percent a = att"
    by (auto simp: academic_record_def Let_def split: option.splits sum.splits prod.splits)
  from academic_measures_bounds [OF m] a show ?thesis by simp
qed

lemma hr_record_shape:
  "\<exists>h g' x. hr_record employee date_row g = Inr (h, g') \<and>
     hf_performance_rating h = py_round 1 (max 1 (min 5 x))"
proof -
  obtain leave g3 where r: "random_randint 0 8 (stl (stl g)) = Inr (leave, g3)"
    by (simp add: random_randint_def)
  show ?thesis
    unfolding hr_record_def Let_def random_gauss_def random_uniform_def prod.case r sum.case
    by (intro exI conjI) (rule refl, simp)
qed

lemma hr_record_bounds:
  assumes "hr_record employee date_row g = Inr (h, g')"
  shows "1 \<le> hf_performance_rating h \<and> hf_performance_rating h \<le> 5"
proof -
  from hr_record_shape [of employee date_row g] assms obtain x where
    "hf_performance_rating h = py_round 1 (max 1 (min 5 x))" by auto
  with clip_round_performance [of 1 x] show ?thesis by (simp only:)
qed

lemma employee_records_bounds:
  assumes "employee_records df_employees df_dates quarterly eid g = Inr (grp, g')" and "h \<in> set grp"
  shows "1 \<le> hf_performance_rating h \<and> hf_performance_rating h \<le> 5"
proof -
  from assms(1) obtain employee selected g1 where
    "apply_rng (hr_record employee) selected g1 = Inr (grp, g')"
    by (auto simp: employee_records_def Let_def split: option.splits sum.splits prod.splits)
  from apply_rng_set [OF this assms(2)] obtain d g2 g3 where
    "hr_record employee d g2 = Inr (h, g3)" by blast
  then show ?thesis by (rule hr_record_bounds)
qed

lemma generate_hr_facts_bounds:
  assumes "generate_hr_facts cutoff df_employees df_dates g = Inr (hr, g')" and "h \<in> set hr"
  shows "1 \<le> hf_performance_rating h \<and> hf_performance_rating h \<le> 5"
proof -
  define quarterly where "quarterly = filter (\<lambda>d. dr_month d \<in> {3, 6, 9, 12})
             (filter (\<lambda>d. date_le cutoff (dr_date d)) df_dates)"
  from assms(1) obtain groups where
    a: "apply_rng (employee_records df_employees df_dates quarterly)
          (unique (map em_employee_id df_employees)) g = Inr (groups, g')" and
    hr: "hr = concat groups"
    unfolding generate_hr_facts_def Let_def quarterly_def [symmetric]
    by (auto split: sum.splits prod.splits)
  from assms(2) hr obtain grp where grp: "grp \<in> set groups" "h \<in> set grp" by auto
  from apply_rng_set [OF a grp(1)] obtain eid g1 g2 where
    "employee_records df_employees df_dates quarterly eid g1 = Inr (grp, g2)"
    by blast
  from employee_records_bounds [OF this grp(2)] show ?thesis .
qed

lemma generate_academic_facts_unfold:
  assumes "generate_academic_facts df_students df_courses df_employees df_dates g = Inr (facts, g')"
  obtains sampled g1 where
    "sampled_student_ids df_students g = Inr (sampled, g1)"
    "apply_rng (academic_record df_students df_courses df_employees df_dates)
           (unique sampled) g1 = Inr (facts, g')"
  using assms by (auto simp: generate_academic_facts_def split: sum.splits prod.splits)

lemma sample_with_replacement_result:
  assumes "sample_with_replacement n xs g = Inr (ys, g')" and "0 < n"
  shows "xs \<noteq> [] \<and> length ys = n \<and> set ys \<subseteq> set xs"
proof -
  from assms have ne: "xs \<noteq> []" and ys: "ys = map (\<lambda>u. xs ! rand_index (length xs) u) (stake n g)"
    by (auto simp: sample_with_replacement_def split: if_splits)
  from ne have "rand_index (length xs) u < length xs" for u
    by (intro rand_index_less) simp
  then have "set ys \<subseteq> set xs" unfolding ys by auto
  with ne ys show ?thesis by simp
qed

lemma apply_rng_map_key:
  assumes "apply_rng f xs g = Inr (ys, g')"
    and "\<And>x g1 y g2. f x g1 = Inr (y, g2) \<Longrightarrow> key y = x"
  shows "map key ys = xs"
proof -
  from apply_rng_list_all2 [OF assms(1)] have
    l: "length xs = length ys" and
    n: "\<forall>i<length xs. \<exists>g1 g2. f (xs ! i) g1 = Inr (ys ! i, g2)"
    by (simp_all add: list_all2_conv_all_nth)
  show ?thesis
  proof (rule nth_equalityI)
    show "length (map key ys) = length xs" using l by simp
  next
    fix i assume "i < length (map key ys)"
    with l n assms(2) show "map key ys ! i = xs ! i" by auto
  qed
qed

text \<open>The generators return facts whenever the tables they sample from are not empty.\<close>

lemma sample_one_total: "xs \<noteq> [] \<Longrightarrow> \<exists>x g'. sample_one xs g = Inr (x, g')"
  by (simp add: sample_one_def)

lemma academic_record_total:
  assumes "sid \<in> st_student_id ` set df_students" "df_courses \<noteq> []" "df_employees \<noteq> []"
    "df_dates \<noteq> []"
  shows "\<exists>a g'. academic_record df_students df_courses df_employees df_dates sid g = Inr (a, g')"
proof -
  from assms(1) obtain student where
    f: "find (\<lambda>s. st_student_id s = sid) df_students = Some student"
    by (cases "find (\<lambda>s. st_student_id s = sid) df_students") (auto simp: find_None_iff)
  from sample_one_total [OF assms(2)] obtain course g1 where
    c: "sample_one df_courses g = Inr (course, g1)" by blast
  define pool where "pool = (if filter is_instructor df_employees = [] then df_employees
    else filter is_instructor df_employees)"
  have "pool \<noteq> []" using assms(3) by (simp add: pool_def)
  from sample_one_total [OF this] obtain instructor g2 where
    i: "sample_one pool g1 = Inr (instructor, g2)" by blast
  from sample_one_total [OF assms(4)] obtain date g3 where
    d: "sample_one df_dates g2 = Inr (date, g3)" by blast
  obtain grade att fee g4 where m: "academic_measures student course g3 = ((grade, att, fee), g4)"
    by (metis prod.exhaust)
  show ?thesis
    unfolding academic_record_def Let_def pool_def [symmetric]
    by (simp add: f c i d m)
qed

lemma generate_academic_facts_total:
  assumes "df_students \<noteq> []" "df_courses \<noteq> []" "df_employees \<noteq> []" "df_dates \<noteq> []"
  shows "\<exists>facts g'. generate_academic_facts df_students df_courses df_employees df_dates g =
           Inr (facts, g')"
proof -
  obtain sampled g1 where
    s: "sampled_student_ids df_students g = Inr (sampled, g1)"
    using assms(1) by (simp add: sampled_student_ids_def sample_with_replacement_def)
  then have "sample_with_replacement 5000 (map st_student_id df_students) g = Inr (sampled, g1)"
    by (simp add: sampled_student_ids_def)
  from sample_with_replacement_result [OF this] have
    sub: "set sampled \<subseteq> st_student_id ` set df_students" by simp
  have "\<exists>ys g'. apply_rng (academic_record df_students df_courses df_employees df_dates)
      (unique sampled) g1 = Inr (ys, g')"
  proof (rule apply_rng_total)
    fix x g2 assume "x \<in> set (unique sampled)"
    with sub have "x \<in> st_student_id ` set df_students" by (auto simp: set_unique)
    from academic_record_total [OF this assms(2,3,4)]
    show "\<exists>y g3. academic_record df_students df_courses df_employees df_dates x g2 = Inr (y, g3)" .
  qed
  with s show ?thesis by (simp add: generate_academic_facts_def)
qed

lemma sample_without_replacement_total:
  "n \<le> length xs \<Longrightarrow> \<exists>ys g'. sample_without_replacement n xs g = Inr (ys, g')"
proof (induction n arbitrary: xs g)
  case 0
  then show ?case by simp
next
  case (Suc n)
  then have ne: "xs \<noteq> []" by auto
  define i where "i = rand_index (length xs) (shd g)"
  have "i < length xs" unfolding i_def using ne by (intro rand_index_less) simp
  with Suc.prems have "n \<le> length (take i xs @ drop (Suc i) xs)" by simp
  from Suc.IH [OF this] obtain ys g' where
    "sample_without_replacement n (take i xs @ drop (Suc i) xs) (stl g) = Inr (ys, g')" by blast
  with ne show ?case by (simp add: Let_def i_def)
qed

lemma hr_record_total: "\<exists>h g'. hr_record employee date_row g = Inr (h, g')"
  using hr_record_shape [of employee date_row g] by blast

lemma employee_records_total:
  assumes "eid \<in> em_employee_id ` set df_employees"
  shows "\<exists>grp g'. employee_records df_employees df_dates quarterly eid g = Inr (grp, g')"
proof -
  from assms obtain employee where
    f: "find (\<lambda>e. em_employee_id e = eid) df_employees = Some employee"
    by (cases "find (\<lambda>e. em_employee_id e = eid) df_employees") (auto simp: find_None_iff)
  define pick where "pick = (if min 8 (length quarterly) = 0
      then sample_without_replacement (min 4 (length df_dates)) df_dates g
      else sample_without_replacement (min 8 (length quarterly)) quarterly g)"
  have "\<exists>selected g1. pick = Inr (selected, g1)"
    unfolding pick_def using sample_without_replacement_total [of "min 4 (length df_dates)" df_dates g]
      sample_without_replacement_total [of "min 8 (length quarterly)" quarterly g]
    by simp
  then obtain selected g1 where p: "pick = Inr (selected, g1)" by blast
  have "\<exists>ys g'. apply_rng (hr_record employee) selected g1 = Inr (ys, g')"
    by (rule apply_rng_total) (rule hr_record_total)
  then show ?thesis
    unfolding employee_records_def Let_def pick_def [symmetric]
    by (simp add: f p)
qed

lemma generate_hr_facts_total:
  "\<exists>hr g'. generate_hr_facts cutoff df_employees df_dates g = Inr (hr, g')"
proof -
  define quarterly where "quarterly = filter (\<lambda>d. dr_month d \<in> {3, 6, 9, 12})
             (filter (\<lambda>d. date_le cutoff (dr_date d)) df_dates)"
  have "\<exists>ys g'. apply_rng (employee_records df_employees df_dates quarterly)
      (unique (map em_employee_id df_employees)) g = Inr (ys, g')"
  proof (rule apply_rng_total)
    fix x g2 assume "x \<in> set (unique (map em_employee_id df_employees))"
    then have "x \<in> em_employee_id ` set df_employees" by (simp add: set_unique)
    then show "\<exists>y g3. employee_records df_employees df_dates quarterly x g2 = Inr (y, g3)"
      by (rule employee_records_total)
  qed
  then show ?thesis
    unfolding generate_hr_facts_def Let_def quarterly_def [symmetric]
    by auto
qed

lemma generate_business_facts_total:
  assumes "df_students \<noteq> []" "df_courses \<noteq> []" "df_employees \<noteq> []" "df_dates \<noteq> []"
  shows "\<exists>academic_data hr_data g'.
           generate_business_facts cutoff df_students df_courses df_employees df_dates g =
             Inr (academic_data, hr_data, g')"
proof -
  from generate_academic_facts_total [OF assms] obtain facts g1 where
    a: "generate_academic_facts df_students df_courses df_employees df_dates g = Inr (facts, g1)"
    by blast
  from generate_hr_facts_total obtain hr g2 where
    h: "generate_hr_facts cutoff df_employees df_dates g1 = Inr (hr, g2)" by blast
  from a h show ?thesis by (simp add: generate_business_facts_def)
qed

text \<open>
  C4. Every synthesized academic fact has a grade in [0, 100] and an attendance in
  [0, 100], and every synthesized HR fact has a performance rating in [1, 5], whatever
  the random draws.
\<close>

theorem synthesized_facts_in_range:
  assumes "generate_business_facts cutoff df_students df_courses df_employees df_dates g =
             Inr (academic_data, hr_data, g')"
  shows "(\<forall>a\<in>set academic_data.
            0 \<le> af_grade a \<and> af_grade a \<le> 100 \<and>
            0 \<le> af_attendance_percent a \<and> af_attendance_percent a \<le> 100) \<and>
         (\<forall>h\<in>set hr_data. 1 \<le> hf_performance_rating h \<and> hf_performance_rating h \<le> 5)"
proof -
  from assms obtain g1 where
    ac: "generate_academic_facts df_students df_courses df_employees df_dates g =
           Inr (academic_data, g1)" and
    hr: "generate_hr_facts cutoff df_employees df_dates g1 = Inr (hr_data, g')"
    by (auto simp: generate_business_facts_def split: sum.splits prod.splits)
  from ac obtain sampled g0 where
    ap: "apply_rng (academic_record df_students df_courses df_employees df_dates)
           (unique sampled) g0 = Inr (academic_data, g1)"
    by (rule generate_academic_facts_unfold)
  have 1: "0 \<le> af_grade a \<and> af_grade a \<le> 100 \<and>
            0 \<le> af_attendance_percent a \<and> af_attendance_percent a \<le> 100"
    if "a \<in> set academic_data" for a
  proof -
    from apply_rng_set [OF ap that] obtain sid g2 g3 where
      "academic_record df_students df_courses df_employees df_dates sid g2 = Inr (a, g3)"
      by blast
    from academic_record_result [OF this] show ?thesis by simp
  qed
  have 2: "1 \<le> hf_performance_rating h \<and> hf_performance_rating h \<le> 5"
    if "h \<in> set hr_data" for h
    using hr that by (rule generate_hr_facts_bounds)
  from 1 2 show ?thesis by blast
qed

theorem synthesized_facts_in_range_witness:
  "\<exists>academic_data hr_data g'.
     generate_business_facts \<lparr>d_year = 2023, d_month = 11, d_day = 3\<rparr>
       [\<lparr>st_student_id = 2, st_birth_date = Some 1131062400000000000, st_admission_year = 2019,
         st_program = ''BS Electrical Engineering'', st_age = 19\<rparr>]
       [\<lparr>co_course_id = 1, co_course_level = ''Advanced'', co_credit_hours = 3\<rparr>]
       [\<lparr>em_employee_id = 3, em_job_title = ''Professor'', em_salary = Finite 90000,
         em_department_id = 1, em_manager_id = 0, em_hire_date = None, em_tenure_years = 0\<rparr>]
       [make_date_row 20240229 \<lparr>d_year = 2024, d_month = 2, d_day = 29\<rparr>] (sconst 0) =
       Inr (academic_data, hr_data, g') \<and>
     list_all (\<lambda>a. 0 \<le> af_grade a \<and> af_grade a \<le> 100 \<and>
        0 \<le> af_attendance_percent a \<and> af_attendance_percent a \<le> 100) academic_data \<and>
     list_all (\<lambda>h. 1 \<le> hf_performance_rating h \<and> hf_performance_rating h \<le> 5) hr_data"
proof -
  obtain academic_data hr_data g' where
    r: "generate_business_facts \<lparr>d_year = 2023, d_month = 11, d_day = 3\<rparr>
       [\<lparr>st_student_id = 2, st_birth_date = Some 1131062400000000000, st_admission_year = 2019,
         st_program = ''BS Electrical Engineering'', st_age = 19\<rparr>]
       [\<lparr>co_course_id = 1, co_course_level = ''Advanced'', co_credit_hours = 3\<rparr>]
       [\<lparr>em_employee_id = 3, em_job_title = ''Professor'', em_salary = Finite 90000,
         em_department_id = 1, em_manager_id = 0, em_hire_date = None, em_tenure_years = 0\<rparr>]
       [make_date_row 20240229 \<lparr>d_year = 2024, d_month = 2, d_day = 29\<rparr>] (sconst 0) =
       Inr (academic_data, hr_data, g')"
    using generate_business_facts_total by blast
  from synthesized_facts_in_range [OF r] r show ?thesis
    unfolding list_all_iff by blast
qed

text \<open>
  C9. The academic facts of one run are one record for each distinct id among the 5000
  sampled student ids, in the order of first appearance: no student has two records, and
  the number of records is the number of distinct sampled ids, at most 5000 and at most
  the number of persisted students.
\<close>

theorem one_academic_fact_per_student:
  assumes "generate_academic_facts df_students df_courses df_employees df_dates g = Inr (facts, g')"
  shows "\<exists>sampled g1.
           sampled_student_ids df_students g = Inr (sampled, g1) \<and>
           length sampled = 5000 \<and>
           map af_student_id facts = unique sampled \<and>
           distinct (map af_student_id facts) \<and>
           length facts = card (set sampled) \<and>
           length facts \<le> min 5000 (length df_students)"
proof -
  from assms obtain sampled g1 where
    s: "sampled_student_ids df_students g = Inr (sampled, g1)" and
    ap: "apply_rng (academic_record df_students df_courses df_employees df_dates)
           (unique sampled) g1 = Inr (facts, g')"
    by (rule generate_academic_facts_unfold)
  from s have "sample_with_replacement 5000 (map st_student_id df_students) g = Inr (sampled, g1)"
    by (simp add: sampled_student_ids_def)
  from sample_with_replacement_result [OF this] have
    len: "length sampled = 5000" and sub: "set sampled \<subseteq> set (map st_student_id df_students)"
    by simp_all
  have ids: "map af_student_id facts = unique sampled"
    using ap
  proof (rule apply_rng_map_key)
    fix x g1 y g2
    assume "academic_record df_students df_courses df_employees df_dates x g1 = Inr (y, g2)"
    from academic_record_result [OF this] show "af_student_id y = x" by simp
  qed
  have d: "distinct (map af_student_id facts)"
    unfolding ids by (rule distinct_unique)
  have "length facts = length (map af_student_id facts)" by simp
  also have "\<dots> = card (set (unique sampled))"
    unfolding ids using distinct_unique [of sampled] by (simp add: distinct_card)
  also have "\<dots> = card (set sampled)" by (simp add: set_unique)
  finally have c: "length facts = card (set sampled)" .
  have "card (set sampled) \<le> length sampled" by (rule card_length)
  with len have c1: "card (set sampled) \<le> 5000" by simp
  have "card (set sampled) \<le> card (set (map st_student_id df_students))"
    using sub by (intro card_mono) simp_all
  also have "\<dots> \<le> length (map st_student_id df_students)" by (rule card_length)
  finally have c2: "card (set sampled) \<le> length df_students" by simp
  from s len ids d c c1 c2 show ?thesis by simp
qed

theorem one_academic_fact_per_student_witness:
  "\<exists>facts g'.
     generate_academic_facts
       [\<lparr>st_student_id = 2, st_birth_date = Some 1131062400000000000, st_admission_year = 2019,
         st_program = ''BS Electrical Engineering'', st_age = 19\<rparr>]
       [\<lparr>co_course_id = 1, co_course_level = ''Advanced'', co_credit_hours = 3\<rparr>]
       [\<lparr>em_employee_id = 3, em_job_title = ''Professor'', em_salary = Finite 90000,
         em_department_id = 1, em_manager_id = 0, em_hire_date = None, em_tenure_years = 0\<rparr>]
       [make_date_row 20240229 \<lparr>d_year = 2024, d_month = 2, d_day = 29\<rparr>] (sconst 0) =
       Inr (facts, g') \<and>
     distinct (map af_student_id facts) \<and> length facts \<le> 1"
proof -
  obtain facts g' where
    r: "generate_academic_facts
       [\<lparr>st_student_id = 2, st_birth_date = Some 1131062400000000000, st_admission_year = 2019,
         st_program = ''BS Electrical Engineering'', st_age = 19\<rparr>]
       [\<lparr>co_course_id = 1, co_course_level = ''Advanced'', co_credit_hours = 3\<rparr>]
       [\<lparr>em_employee_id = 3, em_job_title = ''Professor'', em_salary = Finite 90000,
         em_department_id = 1, em_manager_id = 0, em_hire_date = None, em_tenure_years = 0\<rparr>]
       [make_date_row 20240229 \<lparr>d_year = 2024, d_month = 2, d_day = 29\<rparr>] (sconst 0) =
       Inr (facts, g')"
    using generate_academic_facts_total by blast
  from one_academic_fact_per_student [OF r] have
    "distinct (map af_student_id facts)" "length facts \<le> 1"
    by auto
  with r show ?thesis by blast
qed

end
